theory Spec2Isabelle
  imports Complex_Main "HOL-Library.Multiset"
begin

section \<open>Data model\<close>

text \<open>
  The sources are \<^verbatim>\<open>profillic-alignment-p7_builder.hpp\<close> (model construction,
  reweighting, parameterisation, maximum length) and
  \<^verbatim>\<open>profillic-alignment-hmmbuild.cpp\<close> (the drivers). Numbers of type
  \<^verbatim>\<open>float\<close> and \<^verbatim>\<open>double\<close> are embedded as exact reals: rounding, infinities and
  NaN are outside the embedding, and where the C code may divide by zero and a result
  depends on it, the case is written out or excluded by a hypothesis. Sizes and indices
  (\<^verbatim>\<open>int\<close>, \<^verbatim>\<open>uint32_t\<close>) are natural numbers: the embedding speaks about sizes
  below \<open>2^31\<close>, and allocation is assumed to succeed (the \<^verbatim>\<open>eslEMEM\<close> paths are not
  taken). C arrays are total functions on their index; only cells that the C arrays have
  are read or written for a well-formed model.
\<close>

datatype esl_status =
  eslOK | eslFAIL | eslEMEM | eslEINVAL | eslEFORMAT | eslENORESULT | eslERANGE

text \<open>The alphabet types of Easel, and the seven transitions of a Plan7 node, in the
  order of HMMER's enumeration (\<^verbatim>\<open>p7H_MM = 0\<close>, ..., \<^verbatim>\<open>p7H_DD = 6\<close>): a row
  \<^verbatim>\<open>t[k]\<close> holds the match triple, then the insert pair, then the delete pair.\<close>

datatype esl_abc_type = eslUNKNOWN | eslRNA | eslDNA | eslAMINO | eslCOINS | eslDICE | eslNONSTANDARD

datatype p7h_transition = p7H_MM | p7H_MI | p7H_MD | p7H_IM | p7H_II | p7H_DM | p7H_DD

datatype p7h_flag = p7H_RF | p7H_CS | p7H_CA | p7H_MAP | p7H_CHKSUM | p7H_GA | p7H_TC | p7H_NC

datatype p7_cutoff = p7_GA1 | p7_GA2 | p7_TC1 | p7_TC2 | p7_NC1 | p7_NC2

datatype esl_msa_cutoff = eslMSA_TC1 | eslMSA_TC2 | eslMSA_GA1 | eslMSA_GA2 | eslMSA_NC1 | eslMSA_NC2

record ESL_ALPHABET =
  abc_type :: esl_abc_type
  abc_K :: nat
  abc_DigitizeSymbol :: "char \<Rightarrow> nat"

text \<open>\<^verbatim>\<open>P7_HMM\<close>: the fields the construction pipeline reads or writes. The arrays
  \<^verbatim>\<open>t\<close>, \<^verbatim>\<open>mat\<close> and \<^verbatim>\<open>ins\<close> have rows \<open>0..M\<close>.\<close>

record P7_HMM =
  hmm_M :: nat
  hmm_abc :: ESL_ALPHABET
  hmm_t :: "nat \<Rightarrow> p7h_transition \<Rightarrow> real"
  hmm_mat :: "nat \<Rightarrow> nat \<Rightarrow> real"
  hmm_ins :: "nat \<Rightarrow> nat \<Rightarrow> real"
  hmm_nseq :: int
  hmm_eff_nseq :: real
  hmm_max_length :: int
  hmm_rf :: "string option"
  hmm_mm :: "(nat \<Rightarrow> char) option"
  hmm_cs :: "string option"
  hmm_ca :: "string option"
  hmm_map :: "nat list option"
  hmm_checksum :: nat
  hmm_cutoff :: "p7_cutoff \<Rightarrow> real"
  hmm_flags :: "p7h_flag set"

text \<open>\<^verbatim>\<open>ESL_MSA\<close>: the alignment, as far as the builder looks at it. In profile mode
  it carries the consensus only, and \<^verbatim>\<open>nseq\<close> is the number of sequences the profile
  is taken to come from.\<close>

record ESL_MSA =
  msa_abc :: ESL_ALPHABET
  msa_nseq :: int
  msa_alen :: nat
  msa_name :: "string option"
  msa_acc :: "string option"
  msa_desc :: "string option"
  msa_rf :: "string option"
  msa_ss_cons :: "string option"
  msa_sa_cons :: "string option"
  msa_cutset :: "esl_msa_cutoff \<Rightarrow> bool"
  msa_cutoff :: "esl_msa_cutoff \<Rightarrow> real"

text \<open>The alignment profile (\<^verbatim>\<open>ProfileType\<close>): \<^verbatim>\<open>profile[pos][tag][index]\<close> is a
  field of the position, selected by the tag and applied to the index. The residue type
  has \<^verbatim>\<open>ValueSize\<close> residues, and residue \<open>i\<close> prints as a character.\<close>

datatype TransitionFromMatch = fromMatch_toMatch | fromMatch_toInsertion | fromMatch_toDeletion

datatype TransitionFromInsertion = fromInsertion_toMatch | fromInsertion_toInsertion

datatype TransitionFromDeletion = fromDeletion_toMatch | fromDeletion_toDeletion

datatype TransitionFromPreAlign = fromPreAlign_toPreAlign | fromPreAlign_toBegin

datatype TransitionFromPostAlign = fromPostAlign_toPostAlign | fromPostAlign_toTerminal

record profile_position =
  pp_Match_emission :: "nat \<Rightarrow> real"
  pp_Insertion_emission :: "nat \<Rightarrow> real"
  pp_Match :: "TransitionFromMatch \<Rightarrow> real"
  pp_Insertion :: "TransitionFromInsertion \<Rightarrow> real"
  pp_Deletion :: "TransitionFromDeletion \<Rightarrow> real"
  pp_PreAlign :: "TransitionFromPreAlign \<Rightarrow> real"
  pp_PostAlign :: "TransitionFromPostAlign \<Rightarrow> real"

record AlignmentProfile =
  prof_positions :: "profile_position list"
  prof_ValueSize :: nat
  prof_residue_char :: "nat \<Rightarrow> char"

text \<open>The build configuration and the null model.\<close>

datatype p7_archchoice = p7_ARCH_FAST | p7_ARCH_HAND

datatype p7_effnchoice = p7_EFFN_NONE | p7_EFFN_SET | p7_EFFN_CLUST | p7_EFFN_ENTROPY

record P7_BUILDER =
  bld_arch_strategy :: p7_archchoice
  bld_symfrac :: real
  bld_effn_strategy :: p7_effnchoice
  bld_re_target :: real
  bld_esigma :: real
  bld_eid :: real
  bld_eset :: real
  bld_max_insert_len :: int
  bld_w_len :: int
  bld_w_beta :: real
  bld_abc :: ESL_ALPHABET

record P7_BG =
  bg_f :: "nat \<Rightarrow> real"

text \<open>The routines of HMMER and Easel that the pipeline calls and whose working is not
  fixed here are parameters: the two model makers for conventional alignments, the
  clustering and entropy-weighting routines, the posterior-mean estimator (with the
  builder's prior), the annotation setters, the calibration and the trace alignment. A
  routine that works on the model in place returns the model as it leaves it. The trace
  arrays, which only travel from the model makers to the trace alignment, and the
  optional search profiles of the calibration are left out.\<close>

record externals =
  x_Fastmodelmaker :: "ESL_MSA \<Rightarrow> real \<Rightarrow> P7_BUILDER \<Rightarrow> esl_status \<times> P7_HMM option \<times> ESL_MSA"
  x_Handmodelmaker :: "ESL_MSA \<Rightarrow> P7_BUILDER \<Rightarrow> esl_status \<times> P7_HMM option \<times> ESL_MSA"
  x_SingleLinkage :: "ESL_MSA \<Rightarrow> real \<Rightarrow> esl_status \<times> int"
  x_EntropyWeight :: "P7_HMM \<Rightarrow> P7_BG \<Rightarrow> real \<Rightarrow> esl_status \<times> real"
  x_ParameterEstimation :: "P7_HMM \<Rightarrow> esl_status \<times> P7_HMM"
  x_SetName :: "P7_HMM \<Rightarrow> string \<Rightarrow> P7_HMM"
  x_SetAccession :: "P7_HMM \<Rightarrow> string option \<Rightarrow> esl_status \<times> P7_HMM"
  x_SetDescription :: "P7_HMM \<Rightarrow> string option \<Rightarrow> esl_status \<times> P7_HMM"
  x_SetCtime :: "P7_HMM \<Rightarrow> esl_status \<times> P7_HMM"
  x_SetComposition :: "P7_HMM \<Rightarrow> esl_status \<times> P7_HMM"
  x_SetConsensus :: "P7_HMM \<Rightarrow> esl_status \<times> P7_HMM"
  x_Calibrate :: "P7_HMM \<Rightarrow> P7_BUILDER \<Rightarrow> P7_BG \<Rightarrow> esl_status \<times> P7_HMM"
  x_tracealign_MSA :: "ESL_MSA \<Rightarrow> nat \<Rightarrow> esl_status \<times> ESL_MSA option"

section \<open>Library routines with a fixed meaning\<close>

text \<open>Modelled from the spec: \<^verbatim>\<open>p7_hmm_Create\<close> belongs to the HMMER library,
  which is not among the sources. The spec has the count model allocated with \<open>M\<close>
  match states over the alignment's alphabet; the scalar fields of a fresh model
  (\<open>-1\<close> for \<^verbatim>\<open>nseq\<close>, \<^verbatim>\<open>eff_nseq\<close> and \<^verbatim>\<open>max_length\<close>, no annotation, no
  flags, unset cutoffs) are HMMER's, and the arrays, which HMMER leaves uninitialised,
  are zeroed by the caller before any use.\<close>

definition p7_hmm_Create :: "nat \<Rightarrow> ESL_ALPHABET \<Rightarrow> P7_HMM" where
  "p7_hmm_Create m abc =
     \<lparr>hmm_M = m, hmm_abc = abc,
      hmm_t = (\<lambda>k tr. 0), hmm_mat = (\<lambda>k x. 0), hmm_ins = (\<lambda>k x. 0),
      hmm_nseq = - 1, hmm_eff_nseq = - 1, hmm_max_length = - 1,
      hmm_rf = None, hmm_mm = None, hmm_cs = None, hmm_ca = None, hmm_map = None,
      hmm_checksum = 0, hmm_cutoff = (\<lambda>c. - 99999), hmm_flags = {}\<rparr>"

text \<open>Modelled from the spec: \<^verbatim>\<open>p7_hmm_Zero\<close> belongs to the HMMER library, which
  is not among the sources. It zeroes the transition and emission rows \<open>0..M\<close> (the spec
  has the model zero-initialised by the converter).\<close>

definition p7_hmm_Zero :: "P7_HMM \<Rightarrow> P7_HMM" where
  "p7_hmm_Zero hmm =
     hmm\<lparr>hmm_t := (\<lambda>k tr. if k \<le> hmm_M hmm then 0 else hmm_t hmm k tr),
         hmm_mat := (\<lambda>k x. if k \<le> hmm_M hmm \<and> x < abc_K (hmm_abc hmm) then 0 else hmm_mat hmm k x),
         hmm_ins := (\<lambda>k x. if k \<le> hmm_M hmm \<and> x < abc_K (hmm_abc hmm) then 0 else hmm_ins hmm k x)\<rparr>"

text \<open>Modelled from the spec: \<^verbatim>\<open>p7_hmm_Scale\<close> belongs to the HMMER library, which is
  not among the sources. It multiplies every per-position distribution of the model (the
  transition row and both emission rows of every node \<open>0..M\<close>) by the factor.\<close>

definition p7_hmm_Scale :: "P7_HMM \<Rightarrow> real \<Rightarrow> P7_HMM" where
  "p7_hmm_Scale hmm scale =
     hmm\<lparr>hmm_t := (\<lambda>k tr. if k \<le> hmm_M hmm then hmm_t hmm k tr * scale else hmm_t hmm k tr),
         hmm_mat := (\<lambda>k x. if k \<le> hmm_M hmm \<and> x < abc_K (hmm_abc hmm)
                             then hmm_mat hmm k x * scale else hmm_mat hmm k x),
         hmm_ins := (\<lambda>k x. if k \<le> hmm_M hmm \<and> x < abc_K (hmm_abc hmm)
                             then hmm_ins hmm k x * scale else hmm_ins hmm k x)\<rparr>"

text \<open>Modelled from the spec: \<^verbatim>\<open>esl_vec_FNorm\<close> belongs to the Easel library, which
  is not among the sources. \<^verbatim>\<open>esl_vec_FNorm(vec, n)\<close> normalises the \<open>n\<close> cells from
  \<^verbatim>\<open>vec\<close> on so that they sum to one: each is divided by their sum, and when the sum
  is zero each becomes \<open>1/n\<close> (Easel's convention). The cells are given as the list of
  their indices: \<^verbatim>\<open>(t[k], 3)\<close> is the match triple, \<^verbatim>\<open>(t[k]+3, 2)\<close> the insert
  pair, \<^verbatim>\<open>(t[k]+5, 2)\<close> the delete pair, and \<^verbatim>\<open>(mat[k], K)\<close> the residues
  \<open>0..K-1\<close>.\<close>

definition esl_vec_FNorm :: "'i list \<Rightarrow> ('i \<Rightarrow> real) \<Rightarrow> ('i \<Rightarrow> real)" where
  "esl_vec_FNorm cells vec =
     (let sum = sum_list (map vec cells)
      in if sum \<noteq> 0 then (\<lambda>x. if x \<in> set cells then vec x / sum else vec x)
         else (\<lambda>x. if x \<in> set cells then 1 / real (length cells) else vec x))"

text \<open>Modelled from the spec: \<^verbatim>\<open>esl_vec_FSet\<close> belongs to the Easel library, which
  is not among the sources. \<^verbatim>\<open>esl_vec_FSet(vec, n, v)\<close> sets the first \<open>n\<close> cells to
  \<open>v\<close>.\<close>

definition esl_vec_FSet :: "nat \<Rightarrow> real \<Rightarrow> (nat \<Rightarrow> real) \<Rightarrow> (nat \<Rightarrow> real)" where
  "esl_vec_FSet n v vec = (\<lambda>x. if x < n then v else vec x)"

section \<open>The maximum-length estimator\<close>

text \<open>\<^verbatim>\<open>profillic_p7_Builder_MaxLength\<close>. The three tables \<^verbatim>\<open>I\<close>, \<^verbatim>\<open>M\<close>, \<^verbatim>\<open>D\<close>
  have rows \<open>0..M\<close> and two columns; a cell is addressed by (row, column). The C code
  allocates them uninitialised and writes every cell of rows \<open>1..M\<close> before reading it;
  row 0 is never touched. A model has at least one state, and the tables are used for
  \<open>M \<ge> 2\<close>.\<close>

record dp_table =
  dp_I :: "nat \<times> nat \<Rightarrow> real"
  dp_M :: "nat \<times> nat \<Rightarrow> real"
  dp_D :: "nat \<times> nat \<Rightarrow> real"

definition length_bound :: nat where
  "length_bound = 200000"

definition dp_alloc :: dp_table where
  "dp_alloc = \<lparr>dp_I = (\<lambda>_. 0), dp_M = (\<lambda>_. 0), dp_D = (\<lambda>_. 0)\<rparr>"

text \<open>First column (\<^verbatim>\<open>col = 1\<close>, buffer column 0): the loop body for \<open>k = 3..M\<close>,
  then the whole initialisation.\<close>

definition first_column_body :: "P7_HMM \<Rightarrow> nat \<Rightarrow> dp_table \<Rightarrow> dp_table" where
  "first_column_body hmm k dp =
     (let dp1 = dp\<lparr>dp_I := (dp_I dp)((k, 0) := 0)\<rparr>;
          dp2 = dp1\<lparr>dp_M := (dp_M dp1)((k, 0) := 0)\<rparr>
      in dp2\<lparr>dp_D := (dp_D dp2)((k, 0) := hmm_t hmm (k - 1) p7H_DD * dp_D dp2 (k - 1, 0))\<rparr>)"

definition first_column :: "P7_HMM \<Rightarrow> dp_table \<Rightarrow> dp_table" where
  "first_column hmm dp =
     (let dp1 = dp\<lparr>dp_M := (dp_M dp)((1, 0) := 1)\<rparr>;
          dp2 = dp1\<lparr>dp_I := (dp_I dp1)((2, 0) := 0, (1, 0) := 0),
                    dp_M := (dp_M dp1)((2, 0) := 0),
                    dp_D := (dp_D dp1)((1, 0) := 0)\<rparr>;
          dp3 = dp2\<lparr>dp_D := (dp_D dp2)((2, 0) := hmm_t hmm 1 p7H_MD)\<rparr>
      in fold (first_column_body hmm) [3..<Suc (hmm_M hmm)] dp3)"

text \<open>Second column (\<^verbatim>\<open>col = 2\<close>, buffer column 1).\<close>

definition second_column_body :: "P7_HMM \<Rightarrow> nat \<Rightarrow> dp_table \<Rightarrow> dp_table" where
  "second_column_body hmm k dp =
     (let dp1 = dp\<lparr>dp_M := (dp_M dp)((k, 1) := hmm_t hmm (k - 1) p7H_DM * dp_D dp (k - 1, 0))\<rparr>;
          dp2 = dp1\<lparr>dp_I := (dp_I dp1)((k, 1) := 0)\<rparr>
      in dp2\<lparr>dp_D := (dp_D dp2)((k, 1) :=
               hmm_t hmm (k - 1) p7H_MD * dp_M dp2 (k - 1, 1)
             + hmm_t hmm (k - 1) p7H_DD * dp_D dp2 (k - 1, 1))\<rparr>)"

definition second_column :: "P7_HMM \<Rightarrow> dp_table \<Rightarrow> dp_table" where
  "second_column hmm dp =
     (let dp1 = dp\<lparr>dp_I := (dp_I dp)((2, 1) := 0),
                   dp_M := (dp_M dp)((1, 1) := 0),
                   dp_D := (dp_D dp)((2, 1) := 0, (1, 1) := 0)\<rparr>;
          dp2 = dp1\<lparr>dp_I := (dp_I dp1)((1, 1) := hmm_t hmm 1 p7H_MI * dp_M dp1 (1, 0))\<rparr>;
          dp3 = dp2\<lparr>dp_M := (dp_M dp2)((2, 1) := hmm_t hmm 1 p7H_MM * dp_M dp2 (1, 0))\<rparr>
      in fold (second_column_body hmm) [3..<Suc (hmm_M hmm)] dp3)"

text \<open>One pass of the general column loop. The inner loop over \<open>k = 2..M\<close> carries
  the tables and the running \<^verbatim>\<open>surv\<close>; \<open>c\<close> is \<^verbatim>\<open>col_ptr\<close> and \<open>p\<close> is
  \<^verbatim>\<open>prev_col_ptr\<close>.\<close>

definition column_body :: "P7_HMM \<Rightarrow> nat \<Rightarrow> nat \<Rightarrow> nat \<Rightarrow> dp_table \<times> real \<Rightarrow> dp_table \<times> real" where
  "column_body hmm c p k s =
     (let dp = fst s; surv = snd s;
          dp1 = dp\<lparr>dp_M := (dp_M dp)((k, c) :=
                    hmm_t hmm (k - 1) p7H_MM * dp_M dp (k - 1, p)
                  + hmm_t hmm (k - 1) p7H_DM * dp_D dp (k - 1, p)
                  + hmm_t hmm (k - 1) p7H_IM * dp_I dp (k - 1, p))\<rparr>;
          dp2 = dp1\<lparr>dp_I := (dp_I dp1)((k, c) :=
                    hmm_t hmm k p7H_MI * dp_M dp1 (k, p)
                  + hmm_t hmm k p7H_II * dp_I dp1 (k, p))\<rparr>;
          dp3 = dp2\<lparr>dp_D := (dp_D dp2)((k, c) :=
                    hmm_t hmm (k - 1) p7H_MD * dp_M dp2 (k - 1, c)
                  + hmm_t hmm (k - 1) p7H_DD * dp_D dp2 (k - 1, c))\<rparr>
      in (dp3,
          if k \<le> hmm_M hmm
          then surv + (dp_I dp3 (k, c)
                     + dp_M dp3 (k, c) * (1 - hmm_t hmm k p7H_MD)
                     + dp_D dp3 (k, c) * (1 - hmm_t hmm k p7H_DD))
          else surv))"

text \<open>The pass returns the tables, the new \<^verbatim>\<open>p_sum\<close> and \<^verbatim>\<open>surv\<close> as it stands
  before \<^verbatim>\<open>surv /= surv + p_sum\<close>.\<close>

definition column_step :: "P7_HMM \<Rightarrow> nat \<Rightarrow> real \<Rightarrow> dp_table \<Rightarrow> dp_table \<times> real \<times> real" where
  "column_step hmm c p_sum dp =
     (let p = 1 - c;
          m = hmm_M hmm;
          dp1 = dp\<lparr>dp_M := (dp_M dp)((1, c) := 0), dp_D := (dp_D dp)((1, c) := 0)\<rparr>;
          dp2 = dp1\<lparr>dp_I := (dp_I dp1)((1, c) := hmm_t hmm 1 p7H_II * dp_I dp1 (1, p))\<rparr>;
          s = fold (column_body hmm c p) [2..<Suc m] (dp2, 0 + dp_I dp2 (1, c));
          dp3 = fst s;
          surv = snd s + (dp_M dp3 (m, c) * hmm_t hmm m p7H_MD
                        + dp_D dp3 (m, c) * hmm_t hmm m p7H_DD
                        - dp_I dp3 (m, c))
      in (dp3, p_sum + (dp_M dp3 (m, c) + dp_D dp3 (m, c)), surv))"

text \<open>The test \<^verbatim>\<open>surv /= surv + p_sum; if (surv < emit_thresh)\<close>. When the divisor
  is zero the C quotient is NaN (for \<open>surv = 0\<close>, the test fails) or an infinity with the
  sign of \<open>surv\<close> (the test succeeds for a negative one); HOL's \<open>x / 0 = 0\<close> is not used.\<close>

definition surv_below :: "real \<Rightarrow> real \<Rightarrow> real \<Rightarrow> bool" where
  "surv_below surv p_sum emit_thresh =
     (if surv + p_sum = 0 then surv < 0 else surv / (surv + p_sum) < emit_thresh)"

text \<open>The column loop \<^verbatim>\<open>for (col = 3; col <= length_bound; col++)\<close>: \<open>Some col\<close> is
  the column at which the loop breaks, \<open>None\<close> means that it ran to the bound.\<close>

function column_loop :: "P7_HMM \<Rightarrow> real \<Rightarrow> nat \<Rightarrow> nat \<Rightarrow> real \<Rightarrow> dp_table \<Rightarrow> nat option" where
  "column_loop hmm emit_thresh col c p_sum dp =
     (if col \<le> length_bound
      then (case column_step hmm c p_sum dp of
              (dp', p_sum', surv) \<Rightarrow>
                if surv_below surv p_sum' emit_thresh then Some col
                else column_loop hmm emit_thresh (Suc col) (1 - c) p_sum' dp')
      else None)"
  by pat_completeness auto
termination
  by (relation "measure (\<lambda>(hmm, emit_thresh, col, c, p_sum, dp). Suc length_bound - col)") auto

text \<open>The search as a whole: both initial columns, the initial \<^verbatim>\<open>p_sum\<close>, then the
  column loop from \<^verbatim>\<open>col = 3\<close> with \<^verbatim>\<open>col_ptr = 0\<close>.\<close>

definition initial_columns :: "P7_HMM \<Rightarrow> dp_table" where
  "initial_columns hmm = second_column hmm (first_column hmm dp_alloc)"

definition initial_p_sum :: "P7_HMM \<Rightarrow> dp_table \<Rightarrow> real" where
  "initial_p_sum hmm dp =
     dp_M dp (hmm_M hmm, 0) + dp_M dp (hmm_M hmm, 1) + dp_D dp (hmm_M hmm, 0) + dp_D dp (hmm_M hmm, 1)"

definition stopping_column :: "P7_HMM \<Rightarrow> real \<Rightarrow> nat option" where
  "stopping_column hmm emit_thresh =
     (let dp = initial_columns hmm
      in column_loop hmm emit_thresh 3 0 (initial_p_sum hmm dp) dp)"

text \<open>The function returns its status and the model as it leaves it: \<^verbatim>\<open>max_length\<close>
  is assigned only at the break (or in the one-state case), and the final test reads
  the field whatever it holds.\<close>

definition profillic_p7_Builder_MaxLength :: "P7_HMM \<Rightarrow> real \<Rightarrow> esl_status \<times> P7_HMM" where
  "profillic_p7_Builder_MaxLength hmm emit_thresh =
     (if hmm_M hmm = 1 then (eslOK, hmm\<lparr>hmm_max_length := 1\<rparr>)
      else
        let hmm' = (case stopping_column hmm emit_thresh of
                      Some col \<Rightarrow> hmm\<lparr>hmm_max_length := int col\<rparr>
                    | None \<Rightarrow> hmm)
        in if hmm_max_length hmm' \<ge> int length_bound then (eslERANGE, hmm') else (eslOK, hmm'))"

section \<open>The converter from profiles to counts\<close>

text \<open>Single assignments to the three arrays of the model, and statements run in the
  order in which they are written.\<close>

definition set_t :: "nat \<Rightarrow> p7h_transition \<Rightarrow> real \<Rightarrow> P7_HMM \<Rightarrow> P7_HMM" where
  "set_t k tr v hmm = hmm\<lparr>hmm_t := (hmm_t hmm)(k := (hmm_t hmm k)(tr := v))\<rparr>"

definition set_mat :: "nat \<Rightarrow> nat \<Rightarrow> real \<Rightarrow> P7_HMM \<Rightarrow> P7_HMM" where
  "set_mat k x v hmm = hmm\<lparr>hmm_mat := (hmm_mat hmm)(k := (hmm_mat hmm k)(x := v))\<rparr>"

definition set_ins :: "nat \<Rightarrow> nat \<Rightarrow> real \<Rightarrow> P7_HMM \<Rightarrow> P7_HMM" where
  "set_ins k x v hmm = hmm\<lparr>hmm_ins := (hmm_ins hmm)(k := (hmm_ins hmm k)(x := v))\<rparr>"

definition in_order :: "('s \<Rightarrow> 's) list \<Rightarrow> 's \<Rightarrow> 's" where
  "in_order stmts s = fold (\<lambda>stmt. stmt) stmts s"

text \<open>\<^verbatim>\<open>esl_abc_DigitizeSymbol(msa->abc, static_cast<char>(ResidueType(res_i)))\<close>.\<close>

definition digitized_residue :: "ESL_MSA \<Rightarrow> AlignmentProfile \<Rightarrow> nat \<Rightarrow> nat" where
  "digitized_residue msa profile res_i = abc_DigitizeSymbol (msa_abc msa) (prof_residue_char profile res_i)"

text \<open>Position 0 of the profile. The loop over \<^verbatim>\<open>res_i = 1 .. K-1\<close> that clears
  \<^verbatim>\<open>mat[0]\<close> has the five transition assignments inside its braces, as the source
  has.\<close>

definition fill_first_position :: "ESL_MSA \<Rightarrow> AlignmentProfile \<Rightarrow> P7_HMM \<Rightarrow> P7_HMM" where
  "fill_first_position msa profile hmm =
     (let p0 = prof_positions profile ! 0;
          h1 = set_t 0 p7H_MI (pp_Insertion p0 fromInsertion_toInsertion) hmm;
          h2 = set_t 0 p7H_II (hmm_t h1 0 p7H_MI) h1;
          h3 = set_t 0 p7H_IM (1 - hmm_t h2 0 p7H_MI) h2;
          h4 = fold (\<lambda>res_i. set_ins 0 (digitized_residue msa profile res_i) (pp_Insertion_emission p0 res_i))
                    [0..<prof_ValueSize profile] h3;
          h5 = set_mat 0 0 1 h4
      in fold (\<lambda>res_i. in_order
                 [set_mat 0 res_i 0,
                  set_t 0 p7H_II (pp_PreAlign p0 fromPreAlign_toPreAlign),
                  set_t 0 p7H_IM (pp_PreAlign p0 fromPreAlign_toBegin),
                  set_t 0 p7H_MI (pp_Match p0 fromMatch_toInsertion),
                  set_t 0 p7H_MM (pp_Match p0 fromMatch_toMatch),
                  set_t 0 p7H_MD (pp_Match p0 fromMatch_toDeletion)])
              [1..<abc_K (hmm_abc h5)] h5)"

text \<open>The body of the loop over the positions \<open>1 .. length-1\<close>: the emissions of
  the position (both branches of the source's test on the last position copy the same
  insertion distribution), then the transitions, those of the last position from the
  post-align distribution.\<close>

definition fill_position :: "ESL_MSA \<Rightarrow> AlignmentProfile \<Rightarrow> nat \<Rightarrow> P7_HMM \<Rightarrow> P7_HMM" where
  "fill_position msa profile pos_i hmm =
     (let p = prof_positions profile ! pos_i;
          h1 = fold (\<lambda>res_i. in_order
                       [set_mat pos_i (digitized_residue msa profile res_i) (pp_Match_emission p res_i),
                        set_ins pos_i (digitized_residue msa profile res_i) (pp_Insertion_emission p res_i)])
                    [0..<prof_ValueSize profile] hmm
      in if pos_i = length (prof_positions profile) - 1
         then in_order
                [set_t pos_i p7H_IM (pp_PostAlign p fromPostAlign_toTerminal),
                 set_t pos_i p7H_II (pp_PostAlign p fromPostAlign_toPostAlign),
                 set_t pos_i p7H_MM (pp_PostAlign p fromPostAlign_toTerminal),
                 set_t pos_i p7H_MI (pp_PostAlign p fromPostAlign_toPostAlign)] h1
         else in_order
                [set_t pos_i p7H_MM (pp_Match p fromMatch_toMatch),
                 set_t pos_i p7H_MI (pp_Match p fromMatch_toInsertion),
                 set_t pos_i p7H_MD (pp_Match p fromMatch_toDeletion),
                 set_t pos_i p7H_IM (pp_Insertion p fromInsertion_toMatch),
                 set_t pos_i p7H_II (pp_Insertion p fromInsertion_toInsertion),
                 set_t pos_i p7H_DM (pp_Deletion p fromDeletion_toMatch),
                 set_t pos_i p7H_DD (pp_Deletion p fromDeletion_toDeletion)] h1)"

text \<open>\<^verbatim>\<open>profillic_annotate_model\<close>: the annotation lines are copied behind a leading
  blank, and the map is the identity on \<open>0..alen\<close>. An annotation line of the
  alignment has \<^verbatim>\<open>alen\<close> characters.\<close>

definition profillic_annotate_model :: "P7_HMM \<Rightarrow> ESL_MSA \<Rightarrow> P7_HMM" where
  "profillic_annotate_model hmm msa =
     (let h1 = (case msa_rf msa of None \<Rightarrow> hmm
                | Some rf \<Rightarrow> hmm\<lparr>hmm_rf := Some (CHR '' '' # take (msa_alen msa) rf),
                                  hmm_flags := insert p7H_RF (hmm_flags hmm)\<rparr>);
          h2 = (case msa_ss_cons msa of None \<Rightarrow> h1
                | Some ss \<Rightarrow> h1\<lparr>hmm_cs := Some (CHR '' '' # take (msa_alen msa) ss),
                                 hmm_flags := insert p7H_CS (hmm_flags h1)\<rparr>);
          h3 = (case msa_sa_cons msa of None \<Rightarrow> h2
                | Some sa \<Rightarrow> h2\<lparr>hmm_ca := Some (CHR '' '' # take (msa_alen msa) sa),
                                 hmm_flags := insert p7H_CA (hmm_flags h2)\<rparr>)
      in h3\<lparr>hmm_map := Some [0..<Suc (msa_alen msa)], hmm_flags := insert p7H_MAP (hmm_flags h3)\<rparr>)"

text \<open>\<^verbatim>\<open>profillic_p7_Profillicmodelmaker\<close>. \<open>profile_counts\<close> is the model as it
  stands before the last statement, the call of \<^verbatim>\<open>p7_hmm_Scale\<close>; the function
  returns the status, the new model (none on failure) and the alignment, whose reference
  line it overwrites with consensus markers.\<close>

definition profile_counts :: "ESL_MSA \<Rightarrow> AlignmentProfile \<Rightarrow> P7_HMM" where
  "profile_counts msa profile =
     (let m = length (prof_positions profile);
          h1 = p7_hmm_Zero (p7_hmm_Create m (msa_abc msa));
          h2 = fill_first_position msa profile h1;
          h3 = fold (fill_position msa profile) [1..<length (prof_positions profile)] h2;
          h4 = h3\<lparr>hmm_nseq := msa_nseq msa, hmm_eff_nseq := real_of_int (msa_nseq msa)\<rparr>
      in profillic_annotate_model h4 msa)"

definition profillic_p7_Profillicmodelmaker ::
  "ESL_MSA \<Rightarrow> AlignmentProfile \<Rightarrow> esl_status \<times> P7_HMM option \<times> ESL_MSA" where
  "profillic_p7_Profillicmodelmaker msa profile =
     (if length (prof_positions profile) = 0 then (eslENORESULT, None, msa)
      else
        let hmm = profile_counts msa profile;
            msa' = msa\<lparr>msa_rf := Some (replicate (msa_alen msa) (CHR ''x''))\<rparr>
        in (eslOK, Some (p7_hmm_Scale hmm (real_of_int (hmm_nseq hmm))), msa'))"

section \<open>The build pipeline\<close>

text \<open>A chain of \<^verbatim>\<open>if ((status = stage(...)) != eslOK) goto ERROR;\<close>: the stages
  run in order on the model, and the first status other than \<^verbatim>\<open>eslOK\<close> ends the
  chain.\<close>

fun run_stages :: "('s \<Rightarrow> esl_status \<times> 's) list \<Rightarrow> 's \<Rightarrow> esl_status \<times> 's" where
  "run_stages [] s = (eslOK, s)"
| "run_stages (stage # stages) s =
     (case stage s of (status, s') \<Rightarrow> if status \<noteq> eslOK then (status, s') else run_stages stages s')"

text \<open>\<^verbatim>\<open>profillic_build_model\<close>. With a profile the status of the converter is
  stored and not looked at, and the function returns \<^verbatim>\<open>eslOK\<close>; without one it
  returns what the chosen model maker returns.\<close>

definition profillic_build_model ::
  "externals \<Rightarrow> P7_BUILDER \<Rightarrow> ESL_MSA \<Rightarrow> AlignmentProfile option \<Rightarrow> esl_status \<times> P7_HMM option \<times> ESL_MSA" where
  "profillic_build_model ext bld msa profile_ptr =
     (case profile_ptr of
        Some profile \<Rightarrow>
          (case profillic_p7_Profillicmodelmaker msa profile of
             (status, ret_hmm, msa') \<Rightarrow> (eslOK, ret_hmm, msa'))
      | None \<Rightarrow>
          (case bld_arch_strategy bld of
             p7_ARCH_FAST \<Rightarrow> x_Fastmodelmaker ext msa (bld_symfrac bld) bld
           | p7_ARCH_HAND \<Rightarrow> x_Handmodelmaker ext msa bld))"

text \<open>The cap on the insert self-loop counts.\<close>

definition limit_insert_len :: "P7_BUILDER \<Rightarrow> P7_HMM \<Rightarrow> P7_HMM" where
  "limit_insert_len bld hmm =
     (if bld_max_insert_len bld > 0
      then fold (\<lambda>i h. set_t i p7H_II
                          (min (hmm_t h i p7H_II) (real_of_int (bld_max_insert_len bld) * hmm_t h i p7H_MI)) h)
                [1..<hmm_M hmm] hmm
      else hmm)"

text \<open>\<^verbatim>\<open>effective_seqnumber\<close>. The last statement divides by the model's \<^verbatim>\<open>nseq\<close>;
  for \<open>nseq = 0\<close> the C quotient is an infinity or NaN, and the properties below are
  stated for \<open>nseq \<noteq> 0\<close>. The entropy target is computed for \<open>M \<ge> 1\<close>.\<close>

definition eslCONST_LOG2R :: real where
  "eslCONST_LOG2R = 1 / ln 2"

definition effective_seqnumber ::
  "externals \<Rightarrow> P7_BUILDER \<Rightarrow> ESL_MSA \<Rightarrow> P7_BG \<Rightarrow> P7_HMM \<Rightarrow> esl_status \<times> P7_HMM" where
  "effective_seqnumber ext bld msa bg hmm =
     (let rescale = (\<lambda>h. (eslOK, p7_hmm_Scale h (hmm_eff_nseq h / real_of_int (hmm_nseq h))))
      in case bld_effn_strategy bld of
           p7_EFFN_NONE \<Rightarrow> rescale (hmm\<lparr>hmm_eff_nseq := real_of_int (msa_nseq msa)\<rparr>)
         | p7_EFFN_SET \<Rightarrow> rescale (hmm\<lparr>hmm_eff_nseq := bld_eset bld\<rparr>)
         | p7_EFFN_CLUST \<Rightarrow>
             (case x_SingleLinkage ext msa (bld_eid bld) of
                (status, nclust) \<Rightarrow>
                  if status \<noteq> eslOK then (status, hmm)
                  else rescale (hmm\<lparr>hmm_eff_nseq := real_of_int nclust\<rparr>))
         | p7_EFFN_ENTROPY \<Rightarrow>
             (let etarget0 = (bld_esigma bld
                               - eslCONST_LOG2R * ln (2 / (real (hmm_M hmm) * real (hmm_M hmm + 1))))
                             / real (hmm_M hmm);
                  etarget = max (bld_re_target bld) etarget0
              in case x_EntropyWeight ext hmm bg etarget of
                   (status, eff_nseq) \<Rightarrow>
                     if status \<noteq> eslOK then (status, hmm)
                     else rescale (hmm\<lparr>hmm_eff_nseq := eff_nseq\<rparr>)))"

text \<open>\<^verbatim>\<open>profillic_parameterize\<close>. \<open>normalize_counts\<close> is the branch without
  priors, statement by statement; the other branch is the estimator's.\<close>

definition norm_row :: "'i list \<Rightarrow> nat \<Rightarrow> (nat \<Rightarrow> 'i \<Rightarrow> real) \<Rightarrow> (nat \<Rightarrow> 'i \<Rightarrow> real)" where
  "norm_row cells k a = a(k := esl_vec_FNorm cells (a k))"

definition normalize_counts :: "P7_HMM \<Rightarrow> P7_HMM" where
  "normalize_counts hmm =
     (let m = hmm_M hmm; K = abc_K (hmm_abc hmm);
          t1 = fold (norm_row [p7H_MM, p7H_MI, p7H_MD]) [0..<m] (hmm_t hmm);
          t2 = t1(m := (t1 m)(p7H_MD := 0));
          t3 = norm_row [p7H_MM, p7H_MI, p7H_MD] m t2;
          t4 = fold (norm_row [p7H_IM, p7H_II]) [0..<Suc m] t3;
          t5 = fold (norm_row [p7H_DM, p7H_DD]) [1..<m] t4;
          t6 = t5(m := (t5 m)(p7H_DM := 1));
          t7 = t6(0 := (t6 0)(p7H_DM := 1));
          t8 = t7(m := (t7 m)(p7H_DD := 0));
          t9 = t8(0 := (t8 0)(p7H_DD := 0));
          mat1 = fold (norm_row [0..<K]) [1..<Suc m] (hmm_mat hmm);
          mat2 = mat1(0 := esl_vec_FSet K 0 (mat1 0));
          mat3 = mat2(0 := (mat2 0)(0 := 1));
          ins1 = fold (norm_row [0..<K]) [0..<Suc m] (hmm_ins hmm)
      in hmm\<lparr>hmm_t := t9, hmm_mat := mat3, hmm_ins := ins1\<rparr>)"

definition profillic_parameterize ::
  "externals \<Rightarrow> P7_BUILDER \<Rightarrow> bool \<Rightarrow> P7_HMM \<Rightarrow> esl_status \<times> P7_HMM" where
  "profillic_parameterize ext bld use_priors hmm =
     (if use_priors then x_ParameterEstimation ext hmm else (eslOK, normalize_counts hmm))"

text \<open>Modelled from the spec: \<^verbatim>\<open>ESL_MIXDCHLET\<close> and \<^verbatim>\<open>P7_PRIOR\<close> belong to Easel and
  HMMER, which are not among the sources. The prior is a Dirichlet mixture for each kind
  of row: the match, insert and delete transitions and the match and insert emissions. A
  mixture is the list of its components, each the mixture coefficient and the Dirichlet
  parameters \<open>alpha\<close>. The Laplace prior is the single component with every \<open>alpha\<close>
  one (a Dirichlet with all ones, as the source says where it configures the builder).\<close>

type_synonym 'i ESL_MIXDCHLET = "(real \<times> ('i \<Rightarrow> real)) list"

record P7_PRIOR =
  pri_tm :: "p7h_transition ESL_MIXDCHLET"
  pri_ti :: "p7h_transition ESL_MIXDCHLET"
  pri_td :: "p7h_transition ESL_MIXDCHLET"
  pri_em :: "nat ESL_MIXDCHLET"
  pri_ei :: "nat ESL_MIXDCHLET"

text \<open>Modelled from the spec: \<^verbatim>\<open>esl_mixdchlet_MPParameters\<close> belongs to the Easel
  library, which is not among the sources. It is the posterior-mean estimator that
  combines the counts \<open>c\<close> of a row with a Dirichlet-mixture prior: cell \<open>x\<close> becomes the
  sum over the components \<open>q\<close> of \<open>P(q | c) * (c[x] + alpha\<^sub>q[x]) / (|c| + |alpha\<^sub>q|)\<close>,
  where \<open>P(q | c)\<close> is the coefficient of \<open>q\<close> times the probability of the counts under
  \<open>q\<close>, normalised over the components. The logarithm of the probability of the counts
  under a component (Easel's \<^verbatim>\<open>esl_dirichlet_LogProbData\<close>, a quotient of Gamma
  functions) is the parameter \<open>logp\<close>. The cells are given as the list of their indices,
  as for \<^verbatim>\<open>esl_vec_FNorm\<close>.\<close>

definition esl_mixdchlet_MPParameters ::
  "(('i \<Rightarrow> real) \<Rightarrow> ('i \<Rightarrow> real) \<Rightarrow> real) \<Rightarrow> 'i list \<Rightarrow> 'i ESL_MIXDCHLET \<Rightarrow> ('i \<Rightarrow> real) \<Rightarrow> ('i \<Rightarrow> real)" where
  "esl_mixdchlet_MPParameters logp cells d c =
     (let totc = sum_list (map c cells);
          score = (\<lambda>comp. fst comp * exp (logp (snd comp) c));
          tot = sum_list (map score d)
      in (\<lambda>x. if x \<in> set cells
              then sum_list (map (\<lambda>comp. score comp / tot *
                     ((c x + snd comp x) / (totc + sum_list (map (snd comp) cells)))) d)
              else c x))"

definition mp_row ::
  "(('i \<Rightarrow> real) \<Rightarrow> ('i \<Rightarrow> real) \<Rightarrow> real) \<Rightarrow> 'i list \<Rightarrow> 'i ESL_MIXDCHLET \<Rightarrow> nat \<Rightarrow>
   (nat \<Rightarrow> 'i \<Rightarrow> real) \<Rightarrow> (nat \<Rightarrow> 'i \<Rightarrow> real)" where
  "mp_row logp cells d k a = a(k := esl_mixdchlet_MPParameters logp cells d (a k))"

text \<open>Modelled from the spec: \<^verbatim>\<open>p7_ParameterEstimation\<close> belongs to the HMMER
  library, which is not among the sources. Each state's counts are combined with the
  prior by the posterior-mean estimator: the rows are those of the branch without priors,
  with the estimator in the place of the normalisation, under the same conventions: the
  match row of the last node is renormalised after \<open>M\<rightarrow>D = 0\<close>, the delete rows of
  nodes 0 and \<open>M\<close> are \<open>D\<rightarrow>M = 1\<close>, \<open>D\<rightarrow>D = 0\<close>, and \<open>mat[0]\<close> is one-hot. This is
  what the parameter \<open>x_ParameterEstimation\<close> stands for when the builder's prior is
  \<open>pri\<close>.\<close>

definition p7_ParameterEstimation ::
  "((p7h_transition \<Rightarrow> real) \<Rightarrow> (p7h_transition \<Rightarrow> real) \<Rightarrow> real) \<Rightarrow>
   ((nat \<Rightarrow> real) \<Rightarrow> (nat \<Rightarrow> real) \<Rightarrow> real) \<Rightarrow> P7_PRIOR \<Rightarrow> P7_HMM \<Rightarrow> P7_HMM" where
  "p7_ParameterEstimation logp_t logp_e pri hmm =
     (let m = hmm_M hmm; K = abc_K (hmm_abc hmm);
          t1 = fold (mp_row logp_t [p7H_MM, p7H_MI, p7H_MD] (pri_tm pri)) [0..<Suc m] (hmm_t hmm);
          t2 = t1(m := (t1 m)(p7H_MD := 0));
          t3 = norm_row [p7H_MM, p7H_MI, p7H_MD] m t2;
          t4 = fold (mp_row logp_t [p7H_IM, p7H_II] (pri_ti pri)) [0..<Suc m] t3;
          t5 = fold (mp_row logp_t [p7H_DM, p7H_DD] (pri_td pri)) [1..<m] t4;
          t6 = t5(m := (t5 m)(p7H_DM := 1));
          t7 = t6(0 := (t6 0)(p7H_DM := 1));
          t8 = t7(m := (t7 m)(p7H_DD := 0));
          t9 = t8(0 := (t8 0)(p7H_DD := 0));
          mat1 = fold (mp_row logp_e [0..<K] (pri_em pri)) [1..<Suc m] (hmm_mat hmm);
          mat2 = mat1(0 := esl_vec_FSet K 0 (mat1 0));
          mat3 = mat2(0 := (mat2 0)(0 := 1));
          ins1 = fold (mp_row logp_e [0..<K] (pri_ei pri)) [0..<Suc m] (hmm_ins hmm)
      in hmm\<lparr>hmm_t := t9, hmm_mat := mat3, hmm_ins := ins1\<rparr>)"

text \<open>\<^verbatim>\<open>annotate\<close>, \<^verbatim>\<open>calibrate\<close> and \<^verbatim>\<open>make_post_msa\<close>. The status of
  \<^verbatim>\<open>p7_hmm_SetName\<close> is not looked at by the source.\<close>

definition copy_cutoffs :: "ESL_MSA \<Rightarrow> P7_HMM \<Rightarrow> P7_HMM" where
  "copy_cutoffs msa hmm =
     (let pair = (\<lambda>m1 m2 c1 c2 flag h.
                    if msa_cutset msa m1 \<and> msa_cutset msa m2
                    then h\<lparr>hmm_cutoff := (hmm_cutoff h)(c1 := msa_cutoff msa m1, c2 := msa_cutoff msa m2),
                           hmm_flags := insert flag (hmm_flags h)\<rparr>
                    else h)
      in in_order [pair eslMSA_GA1 eslMSA_GA2 p7_GA1 p7_GA2 p7H_GA,
                   pair eslMSA_TC1 eslMSA_TC2 p7_TC1 p7_TC2 p7H_TC,
                   pair eslMSA_NC1 eslMSA_NC2 p7_NC1 p7_NC2 p7H_NC] hmm)"

definition annotate :: "externals \<Rightarrow> P7_BUILDER \<Rightarrow> ESL_MSA \<Rightarrow> P7_HMM \<Rightarrow> esl_status \<times> P7_HMM" where
  "annotate ext bld msa hmm =
     run_stages
       [\<lambda>h. (case msa_name msa of Some name \<Rightarrow> (eslOK, x_SetName ext h name) | None \<Rightarrow> (eslEINVAL, h)),
        \<lambda>h. x_SetAccession ext h (msa_acc msa),
        \<lambda>h. x_SetDescription ext h (msa_desc msa),
        x_SetCtime ext,
        x_SetComposition ext,
        x_SetConsensus ext,
        \<lambda>h. (eslOK, copy_cutoffs msa h)] hmm"

definition calibrate :: "externals \<Rightarrow> P7_BUILDER \<Rightarrow> P7_BG \<Rightarrow> P7_HMM \<Rightarrow> esl_status \<times> P7_HMM" where
  "calibrate ext bld bg hmm = x_Calibrate ext hmm bld bg"

definition make_post_msa :: "externals \<Rightarrow> ESL_MSA \<Rightarrow> P7_HMM \<Rightarrow> bool \<Rightarrow> esl_status \<times> ESL_MSA option" where
  "make_post_msa ext premsa hmm want_postmsa =
     (if \<not> want_postmsa then (eslOK, None)
      else case x_tracealign_MSA ext premsa (hmm_M hmm) of
             (status, postmsa) \<Rightarrow> if status \<noteq> eslOK then (status, None) else (eslOK, postmsa))"

text \<open>The last two steps of \<^verbatim>\<open>profillic_p7_Builder\<close> before the checksum: masked
  positions get the background emissions, and the window length is set, for DNA and RNA
  only.\<close>

definition mask_to_background :: "P7_BG \<Rightarrow> P7_HMM \<Rightarrow> P7_HMM" where
  "mask_to_background bg hmm =
     (case hmm_mm hmm of
        None \<Rightarrow> hmm
      | Some mm \<Rightarrow>
          fold (\<lambda>i h. if mm i = CHR ''m''
                       then fold (\<lambda>j. set_mat i j (bg_f bg j)) [0..<abc_K (hmm_abc h)] h
                       else h)
               [1..<hmm_M hmm] hmm)"

definition set_max_length :: "P7_BUILDER \<Rightarrow> P7_HMM \<Rightarrow> esl_status \<times> P7_HMM" where
  "set_max_length bld hmm =
     (if abc_type (bld_abc bld) = eslDNA \<or> abc_type (bld_abc bld) = eslRNA
      then if bld_w_len bld > 0 then (eslOK, hmm\<lparr>hmm_max_length := bld_w_len bld\<rparr>)
           else if bld_w_beta bld = 0 then (eslOK, hmm\<lparr>hmm_max_length := int (hmm_M hmm) * 4\<rparr>)
           else profillic_p7_Builder_MaxLength hmm (bld_w_beta bld)
      else (eslOK, hmm))"

text \<open>\<^verbatim>\<open>profillic_p7_Builder\<close>, called for the model and, if wanted, the
  post-alignment. It returns the status, the model (none on failure), the alignment and
  the post-alignment (which stays with the caller when the window length fails after it
  was made). When the model maker reports success and hands back no model (an
  empty profile), the source dereferences a null pointer: the call does not return,
  which is \<open>None\<close> here.\<close>

definition profillic_p7_Builder ::
  "externals \<Rightarrow> P7_BUILDER \<Rightarrow> ESL_MSA \<Rightarrow> AlignmentProfile option \<Rightarrow> P7_BG \<Rightarrow> bool \<Rightarrow> bool
     \<Rightarrow> (esl_status \<times> P7_HMM option \<times> ESL_MSA \<times> ESL_MSA option) option" where
  "profillic_p7_Builder ext bld msa profile_ptr bg want_postmsa use_priors =
     (case profillic_build_model ext bld msa profile_ptr of
        (status, ret_hmm, msa1) \<Rightarrow>
          if status \<noteq> eslOK then Some (status, None, msa1, None)
          else case ret_hmm of
                 None \<Rightarrow> None
               | Some hmm0 \<Rightarrow>
                   (case run_stages
                           [\<lambda>h. (eslOK, limit_insert_len bld h),
                            effective_seqnumber ext bld msa1 bg,
                            profillic_parameterize ext bld use_priors,
                            annotate ext bld msa1,
                            calibrate ext bld bg] hmm0 of
                      (status1, hmm1) \<Rightarrow>
                        if status1 \<noteq> eslOK then Some (status1, None, msa1, None)
                        else case make_post_msa ext msa1 hmm1 want_postmsa of
                               (status2, postmsa) \<Rightarrow>
                                 if status2 \<noteq> eslOK then Some (status2, None, msa1, None)
                                 else case run_stages
                                             [\<lambda>h. (eslOK, mask_to_background bg h),
                                              set_max_length bld] hmm1 of
                                        (status3, hmm2) \<Rightarrow>
                                          if status3 \<noteq> eslOK then Some (status3, None, msa1, postmsa)
                                          else Some (eslOK,
                                                     Some (hmm2\<lparr>hmm_checksum := 0,
                                                                hmm_flags := insert p7H_CHKSUM (hmm_flags hmm2)\<rparr>),
                                                     msa1, postmsa)))"

section \<open>The reader of the thread pool\<close>

text \<open>\<^verbatim>\<open>thread_loop\<close>, the reader's side of the work queue. A work item carries its
  index \<^verbatim>\<open>nali\<close>, the \<^verbatim>\<open>processed\<close> mark and what a worker made of it (model,
  alignment, post-alignment and entropy, here one value). The queue and the workers are
  Easel's and run concurrently; what the reader sees of them is the item that each call
  of \<^verbatim>\<open>esl_workqueue_ReaderUpdate\<close> in the loop hands back, so a run is given by the
  number of alignments in the source and the list of the items handed back, in order.
  Reading and writing are taken to succeed (their failures end the program), and the free
  list of pending records is storage management only.\<close>

record 'r WORK_ITEM =
  wi_nali :: nat
  wi_processed :: bool
  wi_result :: 'r

datatype thread_failure = Queue_starved | Top_not_empty

record 'r reader_state =
  rd_nali :: nat
  rd_processed :: nat
  rd_next :: nat
  rd_top :: "(nat \<times> 'r) list"
  rd_output :: "(nat \<times> 'r) list"

text \<open>The pending list is kept in increasing order of \<^verbatim>\<open>nali\<close>: a new record goes
  to the front when the list is empty or its index is smaller than the first one,
  otherwise behind the last record with a smaller index.\<close>

fun insert_behind :: "nat \<times> 'r \<Rightarrow> (nat \<times> 'r) list \<Rightarrow> (nat \<times> 'r) list" where
  "insert_behind tmp [] = [tmp]"
| "insert_behind tmp (nx # rest) =
     (if fst tmp > fst nx then nx # insert_behind tmp rest else tmp # nx # rest)"

fun pending_insert :: "nat \<times> 'r \<Rightarrow> (nat \<times> 'r) list \<Rightarrow> (nat \<times> 'r) list" where
  "pending_insert tmp [] = [tmp]"
| "pending_insert tmp (head # rest) =
     (if fst tmp < fst head then tmp # head # rest else head # insert_behind tmp rest)"

text \<open>After an item has been written, the pending records that continue the sequence
  are written and taken off the list.\<close>

fun drain_pending :: "'r reader_state \<Rightarrow> (nat \<times> 'r) list \<Rightarrow> 'r reader_state" where
  "drain_pending st [] = st\<lparr>rd_top := []\<rparr>"
| "drain_pending st (head # rest) =
     (if fst head = rd_next st
      then drain_pending (st\<lparr>rd_output := rd_output st @ [head], rd_next := Suc (rd_next st)\<rparr>) rest
      else st\<lparr>rd_top := head # rest\<rparr>)"

text \<open>What the reader does with the item handed back.\<close>

definition process_result :: "'r WORK_ITEM \<Rightarrow> 'r reader_state \<Rightarrow> 'r reader_state" where
  "process_result item st =
     (if wi_processed item then
        let st1 = st\<lparr>rd_processed := Suc (rd_processed st)\<rparr> in
        if wi_nali item = rd_next st1
        then drain_pending
               (st1\<lparr>rd_output := rd_output st1 @ [(wi_nali item, wi_result item)],
                     rd_next := Suc (rd_next st1)\<rparr>)
               (rd_top st1)
        else st1\<lparr>rd_top := pending_insert (wi_nali item, wi_result item) (rd_top st1)\<rparr>
      else st)"

text \<open>The main loop. While the source has alignments one is read and numbered; at the
  end of the source the loop goes on as long as fewer results have come back than
  alignments were read. Each pass hands an item to the queue and gets one back; when the
  queue has nothing more to hand back although the loop goes on, the reader waits for
  ever (\<open>Queue_starved\<close>). After the loop a non-empty pending list is fatal.\<close>

fun reader_loop :: "nat \<Rightarrow> 'r WORK_ITEM list \<Rightarrow> 'r reader_state \<Rightarrow> thread_failure + 'r reader_state" where
  "reader_loop n [] st =
     (if rd_nali st < n \<or> rd_processed st < rd_nali st then Inl Queue_starved else Inr st)"
| "reader_loop n (item # queue) st =
     (if rd_nali st < n
      then reader_loop n queue (process_result item (st\<lparr>rd_nali := Suc (rd_nali st)\<rparr>))
      else if rd_processed st < rd_nali st
      then reader_loop n queue (process_result item st)
      else Inr st)"

definition thread_loop :: "nat \<Rightarrow> 'r WORK_ITEM list \<Rightarrow> thread_failure + (nat \<times> 'r) list" where
  "thread_loop n queue =
     (case reader_loop n queue \<lparr>rd_nali = 0, rd_processed = 0, rd_next = 1, rd_top = [], rd_output = []\<rparr> of
        Inl e \<Rightarrow> Inl e
      | Inr st \<Rightarrow> if rd_top st \<noteq> [] then Inl Top_not_empty else Inr (rd_output st))"

section \<open>Notions used in the properties\<close>

text \<open>A call of the estimator reaches its stopping condition when the model has one
  state or the column loop breaks at some column.\<close>

definition reaches_stop :: "P7_HMM \<Rightarrow> real \<Rightarrow> bool" where
  "reaches_stop hmm emit_thresh = (hmm_M hmm = 1 \<or> stopping_column hmm emit_thresh \<noteq> None)"

text \<open>The sum of the cells of a row, and a model all of whose rows sum to one within
  \<open>10\<^sup>-\<^sup>6\<close>: the match triple, the insert pair and the delete pair of every node
  \<open>0..M\<close>, and both emission rows of every node.\<close>

definition row_sum :: "'i list \<Rightarrow> ('i \<Rightarrow> real) \<Rightarrow> real" where
  "row_sum cells vec = sum_list (map vec cells)"

definition rows_normalized :: "P7_HMM \<Rightarrow> bool" where
  "rows_normalized hmm =
     (\<forall>k \<le> hmm_M hmm.
        \<bar>row_sum [p7H_MM, p7H_MI, p7H_MD] (hmm_t hmm k) - 1\<bar> \<le> 1 / 10 ^ 6 \<and>
        \<bar>row_sum [p7H_IM, p7H_II] (hmm_t hmm k) - 1\<bar> \<le> 1 / 10 ^ 6 \<and>
        \<bar>row_sum [p7H_DM, p7H_DD] (hmm_t hmm k) - 1\<bar> \<le> 1 / 10 ^ 6 \<and>
        \<bar>row_sum [0..<abc_K (hmm_abc hmm)] (hmm_mat hmm k) - 1\<bar> \<le> 1 / 10 ^ 6 \<and>
        \<bar>row_sum [0..<abc_K (hmm_abc hmm)] (hmm_ins hmm k) - 1\<bar> \<le> 1 / 10 ^ 6)"

text \<open>The rows that parameterisation fixes by convention.\<close>

definition boundary_conventions :: "P7_HMM \<Rightarrow> bool" where
  "boundary_conventions hmm =
     (hmm_t hmm 0 p7H_DM = 1 \<and> hmm_t hmm 0 p7H_DD = 0 \<and>
      hmm_t hmm (hmm_M hmm) p7H_DM = 1 \<and> hmm_t hmm (hmm_M hmm) p7H_DD = 0 \<and>
      (\<forall>x < abc_K (hmm_abc hmm). hmm_mat hmm 0 x = (if x = 0 then 1 else 0)))"

text \<open>A well-formed prior: in every mixture the coefficients are not negative and one
  of them is positive, and the Dirichlet parameters of the cells are positive. A count
  model: no count of a node \<open>0..M\<close> is negative.\<close>

definition mixture_ok :: "'i list \<Rightarrow> 'i ESL_MIXDCHLET \<Rightarrow> bool" where
  "mixture_ok cells d \<longleftrightarrow>
     (\<forall>comp \<in> set d. 0 \<le> fst comp \<and> (\<forall>x \<in> set cells. 0 < snd comp x)) \<and>
     (\<exists>comp \<in> set d. 0 < fst comp)"

definition prior_ok :: "nat \<Rightarrow> P7_PRIOR \<Rightarrow> bool" where
  "prior_ok K pri \<longleftrightarrow>
     mixture_ok [p7H_MM, p7H_MI, p7H_MD] (pri_tm pri) \<and>
     mixture_ok [p7H_IM, p7H_II] (pri_ti pri) \<and>
     mixture_ok [p7H_DM, p7H_DD] (pri_td pri) \<and>
     mixture_ok [0..<K] (pri_em pri) \<and>
     mixture_ok [0..<K] (pri_ei pri)"

definition counts_nonneg :: "P7_HMM \<Rightarrow> bool" where
  "counts_nonneg hmm \<longleftrightarrow>
     (\<forall>k \<le> hmm_M hmm.
        (\<forall>tr. 0 \<le> hmm_t hmm k tr) \<and>
        (\<forall>x < abc_K (hmm_abc hmm). 0 \<le> hmm_mat hmm k x \<and> 0 \<le> hmm_ins hmm k x))"

text \<open>External routines that, when they succeed, leave \<^verbatim>\<open>max_length\<close> as it is.\<close>

definition keeps_max_length :: "externals \<Rightarrow> bool" where
  "keeps_max_length ext =
     ((\<forall>h h'. x_ParameterEstimation ext h = (eslOK, h') \<longrightarrow> hmm_max_length h' = hmm_max_length h) \<and>
      (\<forall>h name. hmm_max_length (x_SetName ext h name) = hmm_max_length h) \<and>
      (\<forall>h acc h'. x_SetAccession ext h acc = (eslOK, h') \<longrightarrow> hmm_max_length h' = hmm_max_length h) \<and>
      (\<forall>h desc h'. x_SetDescription ext h desc = (eslOK, h') \<longrightarrow> hmm_max_length h' = hmm_max_length h) \<and>
      (\<forall>h h'. x_SetCtime ext h = (eslOK, h') \<longrightarrow> hmm_max_length h' = hmm_max_length h) \<and>
      (\<forall>h h'. x_SetComposition ext h = (eslOK, h') \<longrightarrow> hmm_max_length h' = hmm_max_length h) \<and>
      (\<forall>h h'. x_SetConsensus ext h = (eslOK, h') \<longrightarrow> hmm_max_length h' = hmm_max_length h) \<and>
      (\<forall>h bld bg h'. x_Calibrate ext h bld bg = (eslOK, h') \<longrightarrow> hmm_max_length h' = hmm_max_length h))"

text \<open>The indices of the processed items among those handed back; the indices
  written or pending in a state of the reader; and the invariant of the reader: the
  indices written are \<open>1 .. next-1\<close> in order, the pending list is strictly increasing
  and beyond \<open>next\<close>, and every result that came back is written or pending.\<close>

definition returned :: "'r WORK_ITEM list \<Rightarrow> nat list" where
  "returned queue = map wi_nali (filter wi_processed queue)"

(* proofs *)

definition emitted :: "'r reader_state \<Rightarrow> nat multiset" where
  "emitted st = mset (map fst (rd_output st)) + mset (map fst (rd_top st))"

definition ordered_inv :: "'r reader_state \<Rightarrow> bool" where
  "ordered_inv st = (map fst (rd_output st) = [1..<rd_next st] \<and> 1 \<le> rd_next st \<and>
     sorted_wrt (<) (map fst (rd_top st)) \<and> (\<forall>x \<in> set (rd_top st). rd_next st < fst x) \<and>
     rd_processed st = length (rd_output st) + length (rd_top st))"

text \<open>The invariant of the column loop on the model \<open>stuck_hmm\<close> below.\<close>

definition stuck_inv :: "nat \<Rightarrow> real \<Rightarrow> dp_table \<Rightarrow> bool" where
  "stuck_inv c p_sum dp = (c \<le> 1 \<and> p_sum = 0 \<and> dp_I dp (1, 1 - c) = 1 \<and> dp_D dp (1, 1 - c) = 0)"

section \<open>Example inputs\<close>

text \<open>A DNA alphabet and small parameterised models over it. \<open>end_row\<close> is the row
  of conventions that the last node carries after parameterisation.\<close>

definition dna_abc :: ESL_ALPHABET where
  "dna_abc = \<lparr>abc_type = eslDNA, abc_K = 4,
     abc_DigitizeSymbol = (\<lambda>ch. if ch = CHR ''A'' then 0 else if ch = CHR ''C'' then 1
                                else if ch = CHR ''G'' then 2 else 3)\<rparr>"

definition model_of :: "nat \<Rightarrow> (nat \<Rightarrow> p7h_transition \<Rightarrow> real) \<Rightarrow> P7_HMM" where
  "model_of m tr = (p7_hmm_Create m dna_abc)
     \<lparr>hmm_t := tr,
      hmm_mat := (\<lambda>k x. if x < 4 then 1 / 4 else 0),
      hmm_ins := (\<lambda>k x. if x < 4 then 1 / 4 else 0),
      hmm_nseq := 1, hmm_eff_nseq := 1\<rparr>"

definition end_row :: "p7h_transition \<Rightarrow> real" where
  "end_row tr = (case tr of p7H_MM \<Rightarrow> 1 | p7H_IM \<Rightarrow> 1 | p7H_DM \<Rightarrow> 1 | _ \<Rightarrow> 0)"

text \<open>Two states; the first match state always enters its insert state, which always
  loops: every row is a probability distribution, and no sequence ever ends.\<close>

definition stuck_t :: "nat \<Rightarrow> p7h_transition \<Rightarrow> real" where
  "stuck_t k tr =
     (if k = 1 then (case tr of p7H_MI \<Rightarrow> 1 | p7H_II \<Rightarrow> 1 | p7H_DM \<Rightarrow> 1 | _ \<Rightarrow> 0)
      else end_row tr)"

definition stuck_hmm :: P7_HMM where
  "stuck_hmm = model_of 2 stuck_t"

text \<open>Two states; the first insert state loops with probability one half.\<close>

definition geo_t :: "nat \<Rightarrow> p7h_transition \<Rightarrow> real" where
  "geo_t k tr =
     (if k = 1 then (case tr of p7H_MM \<Rightarrow> 1 / 2 | p7H_MI \<Rightarrow> 1 / 2 | p7H_IM \<Rightarrow> 1 / 2
                              | p7H_II \<Rightarrow> 1 / 2 | p7H_DM \<Rightarrow> 1 | _ \<Rightarrow> 0)
      else end_row tr)"

definition geo_hmm :: P7_HMM where
  "geo_hmm = model_of 2 geo_t"

text \<open>Three states with match transitions 0.9, 0.05, 0.05 at the interior nodes.\<close>

definition scen_t :: "nat \<Rightarrow> p7h_transition \<Rightarrow> real" where
  "scen_t k tr =
     (if k = 1 \<or> k = 2
      then (case tr of p7H_MM \<Rightarrow> 9 / 10 | p7H_MI \<Rightarrow> 1 / 20 | p7H_MD \<Rightarrow> 1 / 20 | _ \<Rightarrow> 1 / 2)
      else end_row tr)"

definition scen_hmm :: P7_HMM where
  "scen_hmm = model_of 3 scen_t"

text \<open>A DNA profile of three positions, its alignment with ten sequences, and the
  count model the converter makes of them; a profile without positions.\<close>

definition uniform4 :: "nat \<Rightarrow> real" where
  "uniform4 x = (if x < 4 then 1 / 4 else 0)"

definition example_position :: profile_position where
  "example_position =
     \<lparr>pp_Match_emission = (\<lambda>x. if x = 0 then 7 / 10 else if x < 4 then 1 / 10 else 0),
      pp_Insertion_emission = uniform4,
      pp_Match = (\<lambda>tr. case tr of fromMatch_toMatch \<Rightarrow> 9 / 10 | _ \<Rightarrow> 1 / 20),
      pp_Insertion = (\<lambda>tr. 1 / 2),
      pp_Deletion = (\<lambda>tr. 1 / 2),
      pp_PreAlign = (\<lambda>tr. case tr of fromPreAlign_toPreAlign \<Rightarrow> 1 / 10 | fromPreAlign_toBegin \<Rightarrow> 9 / 10),
      pp_PostAlign = (\<lambda>tr. case tr of fromPostAlign_toPostAlign \<Rightarrow> 1 / 10 | fromPostAlign_toTerminal \<Rightarrow> 9 / 10)\<rparr>"

definition example_profile :: AlignmentProfile where
  "example_profile =
     \<lparr>prof_positions = [example_position, example_position, example_position],
      prof_ValueSize = 4,
      prof_residue_char = (\<lambda>i. ''ACGT'' ! i)\<rparr>"

definition example_msa :: ESL_MSA where
  "example_msa =
     \<lparr>msa_abc = dna_abc, msa_nseq = 10, msa_alen = 3, msa_name = Some ''example'',
      msa_acc = None, msa_desc = None, msa_rf = None, msa_ss_cons = None, msa_sa_cons = None,
      msa_cutset = (\<lambda>c. False), msa_cutoff = (\<lambda>c. 0)\<rparr>"

definition empty_profile :: AlignmentProfile where
  "empty_profile = example_profile\<lparr>prof_positions := []\<rparr>"

definition example_counts_hmm :: P7_HMM where
  "example_counts_hmm =
     p7_hmm_Scale (profile_counts example_msa example_profile) (real_of_int (msa_nseq example_msa))"

text \<open>An amino-acid profile and alignment, a build configuration over the amino-acid
  alphabet, a null model, and external routines that succeed and leave the model as it
  is (the estimator normalises the counts).\<close>

definition amino_symbols :: string where
  "amino_symbols = ''ACDEFGHIKLMNPQRSTVWY''"

definition amino_abc :: ESL_ALPHABET where
  "amino_abc = \<lparr>abc_type = eslAMINO, abc_K = 20,
     abc_DigitizeSymbol = (\<lambda>ch. length (takeWhile (\<lambda>c. c \<noteq> ch) amino_symbols))\<rparr>"

definition amino_position :: profile_position where
  "amino_position = example_position\<lparr>pp_Match_emission := (\<lambda>x. if x < 20 then 1 / 20 else 0),
                                     pp_Insertion_emission := (\<lambda>x. if x < 20 then 1 / 20 else 0)\<rparr>"

definition amino_profile :: AlignmentProfile where
  "amino_profile =
     \<lparr>prof_positions = [amino_position, amino_position, amino_position],
      prof_ValueSize = 20,
      prof_residue_char = (\<lambda>i. amino_symbols ! i)\<rparr>"

definition amino_msa :: ESL_MSA where
  "amino_msa = example_msa\<lparr>msa_abc := amino_abc\<rparr>"

definition example_bld :: P7_BUILDER where
  "example_bld =
     \<lparr>bld_arch_strategy = p7_ARCH_FAST, bld_symfrac = 1 / 2, bld_effn_strategy = p7_EFFN_NONE,
      bld_re_target = 59 / 100, bld_esigma = 45, bld_eid = 62 / 100, bld_eset = 0,
      bld_max_insert_len = 0, bld_w_len = - 1, bld_w_beta = 1 / 10 ^ 7, bld_abc = amino_abc\<rparr>"

definition example_bg :: P7_BG where
  "example_bg = \<lparr>bg_f = (\<lambda>x. 1 / 20)\<rparr>"

definition example_ext :: externals where
  "example_ext =
     \<lparr>x_Fastmodelmaker = (\<lambda>msa symfrac bld. (eslENORESULT, None, msa)),
      x_Handmodelmaker = (\<lambda>msa bld. (eslEFORMAT, None, msa)),
      x_SingleLinkage = (\<lambda>msa eid. (eslOK, 1)),
      x_EntropyWeight = (\<lambda>hmm bg etarget. (eslOK, 1)),
      x_ParameterEstimation = (\<lambda>hmm. (eslOK, normalize_counts hmm)),
      x_SetName = (\<lambda>hmm name. hmm),
      x_SetAccession = (\<lambda>hmm acc. (eslOK, hmm)),
      x_SetDescription = (\<lambda>hmm desc. (eslOK, hmm)),
      x_SetCtime = (\<lambda>hmm. (eslOK, hmm)),
      x_SetComposition = (\<lambda>hmm. (eslOK, hmm)),
      x_SetConsensus = (\<lambda>hmm. (eslOK, hmm)),
      x_Calibrate = (\<lambda>hmm bld bg. (eslOK, hmm)),
      x_tracealign_MSA = (\<lambda>msa m. (eslOK, Some msa))\<rparr>"

text \<open>The Laplace prior, and external routines whose estimator is the posterior-mean
  estimator under it (with the log probability of the counts constant, which a single
  component makes immaterial).\<close>

definition laplace_prior :: P7_PRIOR where
  "laplace_prior =
     \<lparr>pri_tm = [(1, \<lambda>x. 1)], pri_ti = [(1, \<lambda>x. 1)], pri_td = [(1, \<lambda>x. 1)],
      pri_em = [(1, \<lambda>x. 1)], pri_ei = [(1, \<lambda>x. 1)]\<rparr>"

definition laplace_ext :: externals where
  "laplace_ext =
     example_ext\<lparr>x_ParameterEstimation :=
       (\<lambda>hmm. (eslOK, p7_ParameterEstimation (\<lambda>alpha c. 0) (\<lambda>alpha c. 0) laplace_prior hmm))\<rparr>"

text \<open>Three alignments; the queue first hands back a free item, then the results of
  the second, the third and the first alignment.\<close>

definition example_queue :: "string WORK_ITEM list" where
  "example_queue =
     [\<lparr>wi_nali = 0, wi_processed = False, wi_result = []\<rparr>,
      \<lparr>wi_nali = 2, wi_processed = True, wi_result = ''second''\<rparr>,
      \<lparr>wi_nali = 3, wi_processed = True, wi_result = ''third''\<rparr>,
      \<lparr>wi_nali = 1, wi_processed = True, wi_result = ''first''\<rparr>]"

section \<open>Properties of the maximum-length estimator\<close>

declare column_loop.simps [simp del]

lemmas eval_defs = stopping_column_def initial_p_sum_def initial_columns_def first_column_def
  second_column_def first_column_body_def second_column_body_def column_step_def column_body_def
  model_of_def p7_hmm_Create_def end_row_def dp_alloc_def Let_def surv_below_def length_bound_def

subsection \<open>One-state models\<close>

text \<open>Claim C6. For a model of length \<open>M = 1\<close> the estimator sets \<open>max_length\<close> to 1
  and returns \<^verbatim>\<open>eslOK\<close> at once, whatever the threshold; in particular it never returns
  \<^verbatim>\<open>eslERANGE\<close>. Nothing else of the model changes.\<close>

theorem maxlength_single_state:
  "hmm_M hmm = 1 \<Longrightarrow>
   profillic_p7_Builder_MaxLength hmm emit_thresh = (eslOK, hmm\<lparr>hmm_max_length := 1\<rparr>)"
  by (simp add: profillic_p7_Builder_MaxLength_def)

theorem maxlength_single_state_witness:
  "hmm_M (model_of 1 (\<lambda>k. end_row)) = 1 \<and>
   fst (profillic_p7_Builder_MaxLength (model_of 1 (\<lambda>k. end_row)) (1 / 10 ^ 7)) = eslOK \<and>
   hmm_max_length (snd (profillic_p7_Builder_MaxLength (model_of 1 (\<lambda>k. end_row)) (1 / 10 ^ 7))) = 1"
proof -
  have h: "hmm_M (model_of 1 (\<lambda>k. end_row)) = 1" by (simp add: model_of_def p7_hmm_Create_def)
  from maxlength_single_state[OF h, of "1 / 10 ^ 7"] h show ?thesis by simp
qed

subsection \<open>A model on which the search never stops\<close>

lemma stuck_step:
  assumes "stuck_inv c p_sum dp"
  shows "case column_step stuck_hmm c p_sum dp of
           (dp', p_sum', surv) \<Rightarrow> stuck_inv (1 - c) p_sum' dp' \<and> surv = 1"
proof -
  from assms have c: "c = 0 \<or> c = 1" by (auto simp: stuck_inv_def)
  then show ?thesis
  proof
    assume "c = 0"
    with assms show ?thesis
      by (simp add: stuck_inv_def column_step_def column_body_def stuck_hmm_def model_of_def p7_hmm_Create_def
            stuck_t_def end_row_def Let_def)
  next
    assume "c = 1"
    with assms show ?thesis
      by (simp add: stuck_inv_def column_step_def column_body_def stuck_hmm_def model_of_def p7_hmm_Create_def
            stuck_t_def end_row_def Let_def)
  qed
qed

lemma stuck_loop:
  "stuck_inv c p_sum dp \<Longrightarrow> 0 \<le> e \<Longrightarrow> e \<le> 1 \<Longrightarrow> column_loop stuck_hmm e col c p_sum dp = None"
proof (induction "Suc length_bound - col" arbitrary: col c p_sum dp)
  case 0
  then show ?case by (simp add: column_loop.simps)
next
  case (Suc n)
  obtain dp' p' s where st: "column_step stuck_hmm c p_sum dp = (dp', p', s)"
    by (cases "column_step stuck_hmm c p_sum dp") auto
  with stuck_step[OF Suc.prems(1)] have inv: "stuck_inv (1 - c) p' dp'" and s: "s = 1" by auto
  from inv have p': "p' = 0" by (simp add: stuck_inv_def)
  have nb: "\<not> surv_below s p' e" using s p' Suc.prems by (simp add: surv_below_def)
  have "n = Suc length_bound - Suc col" using Suc.hyps(2) by simp
  from Suc.hyps(1)[OF this inv Suc.prems(2,3)] st nb show ?case
    by (subst column_loop.simps) simp
qed

lemma stuck_init: "stuck_inv 0 (initial_p_sum stuck_hmm (initial_columns stuck_hmm)) (initial_columns stuck_hmm)"
  by (simp add: stuck_inv_def initial_p_sum_def initial_columns_def first_column_def second_column_def
       stuck_hmm_def model_of_def p7_hmm_Create_def stuck_t_def end_row_def dp_alloc_def Let_def)

text \<open>Claim C3. The column loop never runs past column 200000 (a stopping column is
  at most the bound, \<open>column_loop_within_bound\<close> below), but a search that
  reaches the bound without breaking leaves \<open>max_length\<close> as it found it, and the final test
  reads that stale field: on \<open>stuck_hmm\<close>, freshly carrying \<open>max_length = -1\<close>, the loop
  does not break at any column and the function returns \<^verbatim>\<open>eslOK\<close> with the model
  unchanged, not \<^verbatim>\<open>eslERANGE\<close>.\<close>

theorem maxlength_not_converged_returns_ok:
  "stopping_column stuck_hmm (1 / 10 ^ 7) = None \<and>
   profillic_p7_Builder_MaxLength stuck_hmm (1 / 10 ^ 7) = (eslOK, stuck_hmm)"
proof -
  have n: "stopping_column stuck_hmm (1 / 10 ^ 7) = None"
    unfolding stopping_column_def Let_def by (rule stuck_loop[OF stuck_init]) simp_all
  have "hmm_M stuck_hmm \<noteq> 1" "hmm_max_length stuck_hmm = - 1"
    by (simp_all add: stuck_hmm_def model_of_def p7_hmm_Create_def)
  with n show ?thesis
    by (simp add: profillic_p7_Builder_MaxLength_def length_bound_def)
qed

subsection \<open>Monotonicity in the threshold\<close>

lemma surv_below_mono: "surv_below s p e1 \<Longrightarrow> e1 \<le> e2 \<Longrightarrow> surv_below s p e2"
  by (auto simp: surv_below_def split: if_splits)

lemma column_loop_ge: "column_loop hmm e col c p dp = Some r \<Longrightarrow> col \<le> r"
proof (induction hmm e col c p dp rule: column_loop.induct)
  case (1 hmm e col c p dp)
  obtain dp' p' s where st: "column_step hmm c p dp = (dp', p', s)"
    by (cases "column_step hmm c p dp") auto
  show ?case
  proof (cases "col \<le> length_bound \<and> \<not> surv_below s p' e")
    case True
    with "1.prems" st have "column_loop hmm e (Suc col) (1 - c) p' dp' = Some r"
      by (subst (asm) column_loop.simps) simp
    with "1.IH"[of dp' "(p', s)" p' s] True st have "Suc col \<le> r" by simp
    then show ?thesis by simp
  next
    case False
    with "1.prems" st show ?thesis
      by (subst (asm) column_loop.simps) (auto split: if_splits)
  qed
qed

lemma column_loop_within_bound:
  "column_loop hmm e col c p dp = Some r \<Longrightarrow> r \<le> length_bound"
proof (induction hmm e col c p dp rule: column_loop.induct)
  case (1 hmm e col c p dp)
  obtain dp' p' s where st: "column_step hmm c p dp = (dp', p', s)"
    by (cases "column_step hmm c p dp") auto
  from "1.prems" have cb: "col \<le> length_bound"
    by (subst (asm) column_loop.simps) (auto split: if_splits)
  show ?case
  proof (cases "surv_below s p' e")
    case True
    with "1.prems" st cb have "r = col" by (subst (asm) column_loop.simps) simp
    with cb show ?thesis by simp
  next
    case False
    with "1.prems" st cb have "column_loop hmm e (Suc col) (1 - c) p' dp' = Some r"
      by (subst (asm) column_loop.simps) simp
    with "1.IH"[of dp' "(p', s)" p' s] cb st False show ?thesis by simp
  qed
qed

lemma column_loop_mono:
  "column_loop hmm e1 col c p dp = Some r1 \<Longrightarrow> e1 \<le> e2 \<Longrightarrow>
   \<exists>r2. column_loop hmm e2 col c p dp = Some r2 \<and> r2 \<le> r1"
proof (induction hmm e1 col c p dp rule: column_loop.induct)
  case (1 hmm e1 col c p dp)
  obtain dp' p' s where st: "column_step hmm c p dp = (dp', p', s)"
    by (cases "column_step hmm c p dp") auto
  from "1.prems"(1) have cb: "col \<le> length_bound"
    by (subst (asm) column_loop.simps) (auto split: if_splits)
  show ?case
  proof (cases "surv_below s p' e2")
    case True
    with cb st have "column_loop hmm e2 col c p dp = Some col"
      by (subst column_loop.simps) simp
    moreover have "col \<le> r1" using "1.prems"(1) by (rule column_loop_ge)
    ultimately show ?thesis by simp
  next
    case False
    with "1.prems"(2) have nb1: "\<not> surv_below s p' e1" using surv_below_mono by blast
    with "1.prems"(1) st cb have "column_loop hmm e1 (Suc col) (1 - c) p' dp' = Some r1"
      by (subst (asm) column_loop.simps) simp
    with "1.IH"[of dp' "(p', s)" p' s] cb st nb1 "1.prems"(2)
    obtain r2 where "column_loop hmm e2 (Suc col) (1 - c) p' dp' = Some r2" "r2 \<le> r1" by auto
    with False cb st show ?thesis
      by (subst column_loop.simps) simp
  qed
qed

text \<open>Claim C7. For a fixed model and thresholds \<open>e1 \<le> e2\<close> such that both calls
  reach their stopping condition within the column bound, the \<open>max_length\<close> computed with
  \<open>e1\<close> is at least the one computed with \<open>e2\<close>.\<close>

theorem maxlength_antimono:
  assumes "e1 \<le> e2" and "reaches_stop hmm e1" and "reaches_stop hmm e2"
  shows "hmm_max_length (snd (profillic_p7_Builder_MaxLength hmm e2))
       \<le> hmm_max_length (snd (profillic_p7_Builder_MaxLength hmm e1))"
proof (cases "hmm_M hmm = 1")
  case True
  then show ?thesis by (simp add: profillic_p7_Builder_MaxLength_def)
next
  case False
  with assms(2) obtain r1 where r1: "stopping_column hmm e1 = Some r1"
    by (auto simp: reaches_stop_def)
  with assms(1) obtain r2 where r2: "stopping_column hmm e2 = Some r2" "r2 \<le> r1"
    unfolding stopping_column_def Let_def using column_loop_mono by blast
  with r1 False show ?thesis
    by (simp add: profillic_p7_Builder_MaxLength_def Let_def)
qed

lemma geo_4: "stopping_column geo_hmm (1 / 4) = Some 4"
  by (simp add: eval_defs geo_hmm_def geo_t_def column_loop.simps)

lemma geo_5: "stopping_column geo_hmm (1 / 8) = Some 5"
  by (simp add: eval_defs geo_hmm_def geo_t_def column_loop.simps)

theorem maxlength_antimono_witness:
  "(1 / 8 :: real) \<le> 1 / 4 \<and> reaches_stop geo_hmm (1 / 8) \<and> reaches_stop geo_hmm (1 / 4) \<and>
   hmm_max_length (snd (profillic_p7_Builder_MaxLength geo_hmm (1 / 4))) = 4 \<and>
   hmm_max_length (snd (profillic_p7_Builder_MaxLength geo_hmm (1 / 8))) = 5"
proof -
  have a: "(1 / 8 :: real) \<le> 1 / 4" by simp
  have b: "reaches_stop geo_hmm (1 / 8)" by (simp add: reaches_stop_def geo_5)
  have c: "reaches_stop geo_hmm (1 / 4)" by (simp add: reaches_stop_def geo_4)
  have m: "hmm_M geo_hmm \<noteq> 1" by (simp add: geo_hmm_def model_of_def p7_hmm_Create_def)
  have d: "hmm_max_length (snd (profillic_p7_Builder_MaxLength geo_hmm (1 / 4))) = 4"
    using m by (simp add: profillic_p7_Builder_MaxLength_def geo_4 Let_def)
  have e: "hmm_max_length (snd (profillic_p7_Builder_MaxLength geo_hmm (1 / 8))) = 5"
    using m by (simp add: profillic_p7_Builder_MaxLength_def geo_5 Let_def)
  from maxlength_antimono[OF a b c] a b c d e show ?thesis by simp
qed
subsection \<open>The second column\<close>

lemma fold_frame:
  "(\<And>k s. k \<in> set ks \<Longrightarrow> g (f k s) = g s) \<Longrightarrow> g (fold f ks s) = g s"
  by (induction ks arbitrary: s) simp_all

lemma second_body_frame:
  "(j, c) \<noteq> (k, 1) \<Longrightarrow> dp_M (second_column_body hmm k dp) (j, c) = dp_M dp (j, c)"
  "(j, c) \<noteq> (k, 1) \<Longrightarrow> dp_I (second_column_body hmm k dp) (j, c) = dp_I dp (j, c)"
  "(j, c) \<noteq> (k, 1) \<Longrightarrow> dp_D (second_column_body hmm k dp) (j, c) = dp_D dp (j, c)"
  by (auto simp: second_column_body_def Let_def)

lemma second_fold_frame:
  assumes "j \<notin> set ks \<or> c \<noteq> 1"
  shows "dp_M (fold (second_column_body hmm) ks dp) (j, c) = dp_M dp (j, c)"
    and "dp_I (fold (second_column_body hmm) ks dp) (j, c) = dp_I dp (j, c)"
    and "dp_D (fold (second_column_body hmm) ks dp) (j, c) = dp_D dp (j, c)"
proof -
  have ne: "\<And>k. k \<in> set ks \<Longrightarrow> (j, c) \<noteq> (k, 1)" using assms by auto
  show "dp_M (fold (second_column_body hmm) ks dp) (j, c) = dp_M dp (j, c)"
    by (rule fold_frame[where g = "\<lambda>s. dp_M s (j, c)"]) (simp add: second_body_frame(1)[OF ne])
  show "dp_I (fold (second_column_body hmm) ks dp) (j, c) = dp_I dp (j, c)"
    by (rule fold_frame[where g = "\<lambda>s. dp_I s (j, c)"]) (simp add: second_body_frame(2)[OF ne])
  show "dp_D (fold (second_column_body hmm) ks dp) (j, c) = dp_D dp (j, c)"
    by (rule fold_frame[where g = "\<lambda>s. dp_D s (j, c)"]) (simp add: second_body_frame(3)[OF ne])
qed

lemma upt_split_at: "lo \<le> k \<Longrightarrow> k \<le> m \<Longrightarrow> [lo..<Suc m] = [lo..<k] @ k # [Suc k..<Suc m]"
proof -
  assume a: "lo \<le> k" and b: "k \<le> m"
  have "[lo..<Suc m] = [lo..<k + (Suc m - k)]" using b by simp
  also have "\<dots> = [lo..<k] @ [k..<k + (Suc m - k)]" using a by (rule upt_add_eq_append)
  also have "[k..<k + (Suc m - k)] = k # [Suc k..<Suc m]" using b by (simp add: upt_conv_Cons)
  finally show ?thesis .
qed

lemma second_fold_row:
  fixes hmm :: P7_HMM and dp :: dp_table and k m :: nat
  assumes "3 \<le> k" "k \<le> m"
  defines "F \<equiv> fold (second_column_body hmm) [3..<Suc m] dp"
  shows "dp_M F (k, 1) = hmm_t hmm (k - 1) p7H_DM * dp_D F (k - 1, 0)"
    and "dp_D F (k, 1) = hmm_t hmm (k - 1) p7H_MD * dp_M F (k - 1, 1)
                        + hmm_t hmm (k - 1) p7H_DD * dp_D F (k - 1, 1)"
    and "dp_I F (k, 1) = 0"
proof -
  define X where "X = fold (second_column_body hmm) [3..<k] dp"
  define Y where "Y = second_column_body hmm k X"
  define R where "R = [Suc k..<Suc m]"
  have F: "F = fold (second_column_body hmm) R Y"
    unfolding F_def X_def Y_def R_def using upt_split_at[OF assms(1,2)] by simp
  have km: "k - 1 \<noteq> k" using assms(1) by arith
  have k: "k \<notin> set R" and k1: "k - 1 \<notin> set R" by (auto simp: R_def)
  have Yk: "dp_M Y (k, 1) = hmm_t hmm (k - 1) p7H_DM * dp_D X (k - 1, 0)"
       "dp_D Y (k, 1) = hmm_t hmm (k - 1) p7H_MD * dp_M X (k - 1, 1)
                        + hmm_t hmm (k - 1) p7H_DD * dp_D X (k - 1, 1)"
       "dp_I Y (k, 1) = 0"
    using km by (simp_all del: One_nat_def add: Y_def second_column_body_def Let_def)
  have ne: "(k - 1, c) \<noteq> (k, 1)" for c using km by (simp del: One_nat_def)
  have Yk1: "dp_M Y (k - 1, c) = dp_M X (k - 1, c)" "dp_D Y (k - 1, c) = dp_D X (k - 1, c)" for c
    unfolding Y_def by (rule second_body_frame(1)[OF ne], rule second_body_frame(3)[OF ne])
  show "dp_M F (k, 1) = hmm_t hmm (k - 1) p7H_DM * dp_D F (k - 1, 0)"
    unfolding F by (simp del: One_nat_def add: second_fold_frame k k1 Yk Yk1)
  show "dp_D F (k, 1) = hmm_t hmm (k - 1) p7H_MD * dp_M F (k - 1, 1)
                        + hmm_t hmm (k - 1) p7H_DD * dp_D F (k - 1, 1)"
    unfolding F by (simp del: One_nat_def add: second_fold_frame k k1 Yk Yk1)
  show "dp_I F (k, 1) = 0"
    unfolding F by (simp del: One_nat_def add: second_fold_frame k k1 Yk Yk1)
qed

lemma second_column_head:
  "dp_I (second_column hmm dp) (1, 1) = hmm_t hmm 1 p7H_MI * dp_M (second_column hmm dp) (1, 0)"
  "dp_M (second_column hmm dp) (2, 1) = hmm_t hmm 1 p7H_MM * dp_M (second_column hmm dp) (1, 0)"
  by (simp_all add: second_column_def Let_def second_fold_frame)

text \<open>Claim C4, as the code has it. After the initialisation, the second column holds
  \<open>Insert(1) = t[1][MI] * Match(1)\<close> and \<open>Match(2) = t[1][MM] * Match(1)\<close> with
  \<open>Match(1)\<close> of the first column, and for every \<open>k\<close> from 3 to \<open>M\<close>:
  \<open>Match(k) = t[k-1][DM] * Delete(k-1)\<close> of the first column,
  \<open>Delete(k) = t[k-1][MD] * Match(k-1) + t[k-1][DD] * Delete(k-1)\<close>, both of the second
  column, and \<open>Insert(k) = 0\<close>. The delete entry is fed by the match entry of row \<open>k-1\<close>,
  not of row \<open>k\<close>.\<close>

theorem second_column_initialised:
  "dp_I (initial_columns hmm) (1, 1) = hmm_t hmm 1 p7H_MI * dp_M (initial_columns hmm) (1, 0) \<and>
   dp_M (initial_columns hmm) (2, 1) = hmm_t hmm 1 p7H_MM * dp_M (initial_columns hmm) (1, 0) \<and>
   (\<forall>k. 3 \<le> k \<and> k \<le> hmm_M hmm \<longrightarrow>
        dp_M (initial_columns hmm) (k, 1)
          = hmm_t hmm (k - 1) p7H_DM * dp_D (initial_columns hmm) (k - 1, 0) \<and>
        dp_D (initial_columns hmm) (k, 1)
          = hmm_t hmm (k - 1) p7H_MD * dp_M (initial_columns hmm) (k - 1, 1)
          + hmm_t hmm (k - 1) p7H_DD * dp_D (initial_columns hmm) (k - 1, 1) \<and>
        dp_I (initial_columns hmm) (k, 1) = 0)"
proof (intro conjI allI impI)
  show "dp_I (initial_columns hmm) (1, 1) = hmm_t hmm 1 p7H_MI * dp_M (initial_columns hmm) (1, 0)"
    unfolding initial_columns_def by (rule second_column_head)
  show "dp_M (initial_columns hmm) (2, 1) = hmm_t hmm 1 p7H_MM * dp_M (initial_columns hmm) (1, 0)"
    unfolding initial_columns_def by (rule second_column_head)
next
  fix k assume k: "3 \<le> k \<and> k \<le> hmm_M hmm"
  then have a: "3 \<le> k" and b: "k \<le> hmm_M hmm" by simp_all
  show "dp_M (initial_columns hmm) (k, 1)
          = hmm_t hmm (k - 1) p7H_DM * dp_D (initial_columns hmm) (k - 1, 0)"
    unfolding initial_columns_def second_column_def Let_def by (rule second_fold_row(1)[OF a b])
  show "dp_D (initial_columns hmm) (k, 1)
          = hmm_t hmm (k - 1) p7H_MD * dp_M (initial_columns hmm) (k - 1, 1)
          + hmm_t hmm (k - 1) p7H_DD * dp_D (initial_columns hmm) (k - 1, 1)"
    unfolding initial_columns_def second_column_def Let_def by (rule second_fold_row(2)[OF a b])
  show "dp_I (initial_columns hmm) (k, 1) = 0"
    unfolding initial_columns_def second_column_def Let_def by (rule second_fold_row(3)[OF a b])
qed

lemma scen_vals:
  "dp_M (initial_columns scen_hmm) (1, 0) = 1"
  "dp_D (initial_columns scen_hmm) (2, 0) = 1 / 20"
  "dp_M (initial_columns scen_hmm) (2, 1) = 9 / 10"
  "dp_D (initial_columns scen_hmm) (2, 1) = 0"
  "dp_M (initial_columns scen_hmm) (3, 1) = 1 / 40"
  "dp_D (initial_columns scen_hmm) (3, 1) = 9 / 200"
  "dp_I (initial_columns scen_hmm) (3, 1) = 0"
  by (simp_all add: eval_defs scen_hmm_def scen_t_def)

lemma scen_trans:
  "hmm_t scen_hmm 2 p7H_DM = 1 / 2" "hmm_t scen_hmm 2 p7H_MD = 1 / 20" "hmm_t scen_hmm 2 p7H_DD = 1 / 2"
  "hmm_M scen_hmm = 3"
  by (simp_all add: scen_hmm_def model_of_def p7_hmm_Create_def scen_t_def)

text \<open>Claim C4 as it is worded takes \<open>Match(k)\<close> of the second column in the delete
  entry; on the three-state model that equation fails at \<open>k = 3\<close> (the code gives 9/200,
  the worded formula 1/800).\<close>

theorem second_column_delete_counterexample:
  "dp_D (initial_columns scen_hmm) (3, 1)
     \<noteq> hmm_t scen_hmm 2 p7H_MD * dp_M (initial_columns scen_hmm) (3, 1)
       + hmm_t scen_hmm 2 p7H_DD * dp_D (initial_columns scen_hmm) (2, 1)"
  unfolding scen_vals scen_trans by simp

theorem second_column_initialised_witness:
  "(3::nat) \<le> 3 \<and> 3 \<le> hmm_M scen_hmm \<and>
   dp_M (initial_columns scen_hmm) (3, 1) = 1 / 2 * (1 / 20) \<and>
   dp_D (initial_columns scen_hmm) (3, 1) = 1 / 20 * (9 / 10) + 1 / 2 * 0 \<and>
   dp_I (initial_columns scen_hmm) (3, 1) = 0"
proof -
  have h: "(3::nat) \<le> 3 \<and> 3 \<le> hmm_M scen_hmm" unfolding scen_trans by simp
  have d: "(3::nat) - 1 = 2" by simp
  from second_column_initialised[of scen_hmm] h have
    "dp_M (initial_columns scen_hmm) (3, 1)
          = hmm_t scen_hmm (3 - 1) p7H_DM * dp_D (initial_columns scen_hmm) (3 - 1, 0) \<and>
        dp_D (initial_columns scen_hmm) (3, 1)
          = hmm_t scen_hmm (3 - 1) p7H_MD * dp_M (initial_columns scen_hmm) (3 - 1, 1)
          + hmm_t scen_hmm (3 - 1) p7H_DD * dp_D (initial_columns scen_hmm) (3 - 1, 1) \<and>
        dp_I (initial_columns scen_hmm) (3, 1) = 0" by blast
  then show ?thesis unfolding d scen_trans scen_vals by simp
qed

section \<open>Properties of the converter\<close>

lemma set_shape [simp]:
  "hmm_M (set_t k tr v h) = hmm_M h" "hmm_abc (set_t k tr v h) = hmm_abc h" "hmm_nseq (set_t k tr v h) = hmm_nseq h"
  "hmm_M (set_mat k x v h) = hmm_M h" "hmm_abc (set_mat k x v h) = hmm_abc h" "hmm_nseq (set_mat k x v h) = hmm_nseq h"
  "hmm_M (set_ins k x v h) = hmm_M h" "hmm_abc (set_ins k x v h) = hmm_abc h" "hmm_nseq (set_ins k x v h) = hmm_nseq h"
  by (simp_all add: set_t_def set_mat_def set_ins_def)

lemma in_order_simps [simp]:
  "in_order [] s = s" "in_order (f # fs) s = in_order fs (f s)"
  by (simp_all add: in_order_def)

lemma fill_first_shape:
  "hmm_M (fill_first_position msa profile h) = hmm_M h"
  "hmm_abc (fill_first_position msa profile h) = hmm_abc h"
  unfolding fill_first_position_def Let_def
  by (simp_all add: fold_frame[where g = hmm_M] fold_frame[where g = hmm_abc])

lemma fill_position_shape:
  "hmm_M (fill_position msa profile pos h) = hmm_M h"
  "hmm_abc (fill_position msa profile pos h) = hmm_abc h"
  unfolding fill_position_def Let_def
  by (simp_all add: fold_frame[where g = hmm_M] fold_frame[where g = hmm_abc])

lemma annotate_shape:
  "hmm_M (profillic_annotate_model h msa) = hmm_M h"
  "hmm_abc (profillic_annotate_model h msa) = hmm_abc h"
  "hmm_nseq (profillic_annotate_model h msa) = hmm_nseq h"
  "hmm_t (profillic_annotate_model h msa) = hmm_t h"
  "hmm_mat (profillic_annotate_model h msa) = hmm_mat h"
  "hmm_ins (profillic_annotate_model h msa) = hmm_ins h"
  by (simp_all add: profillic_annotate_model_def Let_def split: option.splits)

lemma profile_counts_shape:
  "hmm_M (profile_counts msa profile) = length (prof_positions profile)"
  "hmm_abc (profile_counts msa profile) = msa_abc msa"
  "hmm_nseq (profile_counts msa profile) = msa_nseq msa"
  unfolding profile_counts_def Let_def
  by (simp_all add: annotate_shape fold_frame[where g = hmm_M] fold_frame[where g = hmm_abc]
        fill_position_shape fill_first_shape p7_hmm_Zero_def p7_hmm_Create_def)

text \<open>Claim C1. For a profile of length \<open>L \<ge> 1\<close> the converter returns \<^verbatim>\<open>eslOK\<close>
  and a model whose length \<open>M\<close> is \<open>L\<close>; for a profile of length 0 it returns
  \<^verbatim>\<open>eslENORESULT\<close> and no model, and leaves the alignment as it was.\<close>

theorem modelmaker_length:
  "(prof_positions profile \<noteq> [] \<longrightarrow>
      (\<exists>hmm msa'. profillic_p7_Profillicmodelmaker msa profile = (eslOK, Some hmm, msa') \<and>
                   hmm_M hmm = length (prof_positions profile))) \<and>
   (prof_positions profile = [] \<longrightarrow>
      profillic_p7_Profillicmodelmaker msa profile = (eslENORESULT, None, msa))"
  by (simp add: profillic_p7_Profillicmodelmaker_def Let_def p7_hmm_Scale_def profile_counts_shape)

theorem modelmaker_length_witness:
  "prof_positions example_profile \<noteq> [] \<and>
   (\<exists>hmm msa'. profillic_p7_Profillicmodelmaker example_msa example_profile = (eslOK, Some hmm, msa') \<and>
                hmm_M hmm = 3) \<and>
   prof_positions empty_profile = [] \<and>
   profillic_p7_Profillicmodelmaker example_msa empty_profile = (eslENORESULT, None, example_msa)"
proof -
  have a: "prof_positions example_profile \<noteq> []" "length (prof_positions example_profile) = 3"
    by (simp_all add: example_profile_def)
  have b: "prof_positions empty_profile = []" by (simp add: empty_profile_def)
  from modelmaker_length[of example_profile example_msa] modelmaker_length[of empty_profile example_msa] a b
  show ?thesis by simp
qed

subsection \<open>Counts\<close>

lemma set_t_rows [simp]:
  "hmm_t (set_mat k x v h) = hmm_t h" "hmm_t (set_ins k x v h) = hmm_t h"
  "j \<noteq> k \<Longrightarrow> hmm_t (set_t k tr v h) j = hmm_t h j"
  "hmm_t (set_t k tr v h) k = (hmm_t h k)(tr := v)"
  by (simp_all add: set_t_def set_mat_def set_ins_def)

lemma fill_position_t_other:
  "j \<noteq> pos \<Longrightarrow> hmm_t (fill_position msa profile pos h) j = hmm_t h j"
  unfolding fill_position_def Let_def
  by (simp add: fold_frame[where g = "\<lambda>s. hmm_t s j"])

lemma fill_position_t_interior:
  assumes "pos \<noteq> length (prof_positions profile) - 1"
  shows "hmm_t (fill_position msa profile pos h) pos p7H_MM = pp_Match (prof_positions profile ! pos) fromMatch_toMatch"
    and "hmm_t (fill_position msa profile pos h) pos p7H_MI = pp_Match (prof_positions profile ! pos) fromMatch_toInsertion"
    and "hmm_t (fill_position msa profile pos h) pos p7H_MD = pp_Match (prof_positions profile ! pos) fromMatch_toDeletion"
    and "hmm_t (fill_position msa profile pos h) pos p7H_IM = pp_Insertion (prof_positions profile ! pos) fromInsertion_toMatch"
    and "hmm_t (fill_position msa profile pos h) pos p7H_II = pp_Insertion (prof_positions profile ! pos) fromInsertion_toInsertion"
    and "hmm_t (fill_position msa profile pos h) pos p7H_DM = pp_Deletion (prof_positions profile ! pos) fromDeletion_toMatch"
    and "hmm_t (fill_position msa profile pos h) pos p7H_DD = pp_Deletion (prof_positions profile ! pos) fromDeletion_toDeletion"
  using assms unfolding fill_position_def Let_def by simp_all

lemma upt_split_mid: "lo \<le> k \<Longrightarrow> k < hi \<Longrightarrow> [lo..<hi] = [lo..<k] @ k # [Suc k..<hi]"
proof -
  assume a: "lo \<le> k" and b: "k < hi"
  have "[lo..<hi] = [lo..<k + (hi - k)]" using b by simp
  also have "\<dots> = [lo..<k] @ [k..<k + (hi - k)]" using a by (rule upt_add_eq_append)
  also have "[k..<k + (hi - k)] = k # [Suc k..<hi]" using b by (simp add: upt_conv_Cons)
  finally show ?thesis .
qed

lemma profile_counts_interior_row:
  assumes "1 \<le> k" "k < length (prof_positions profile) - 1"
  shows "\<exists>h. hmm_t (profile_counts msa profile) k = hmm_t (fill_position msa profile k h) k"
proof -
  define L where "L = length (prof_positions profile)"
  define R where "R = [Suc k..<L]"
  have kL: "k < L" using assms(2) by (simp add: L_def)
  have kR: "k \<notin> set R" by (simp add: R_def)
  have split: "[1..<L] = [1..<k] @ k # R" unfolding R_def using assms(1) kL by (rule upt_split_mid)
  have fr: "hmm_t (fold (fill_position msa profile) R s) k = hmm_t s k" for s
  proof (rule fold_frame[where g = "\<lambda>s. hmm_t s k"])
    fix ka s' assume "ka \<in> set R"
    with kR have "k \<noteq> ka" by auto
    then show "hmm_t (fill_position msa profile ka s') k = hmm_t s' k" by (rule fill_position_t_other)
  qed
  show ?thesis
    unfolding profile_counts_def Let_def L_def[symmetric] split
    by (auto simp: annotate_shape fr)
qed

lemma profile_counts_interior:
  assumes "1 \<le> k" "k < length (prof_positions profile) - 1"
  shows "hmm_t (profile_counts msa profile) k p7H_MM = pp_Match (prof_positions profile ! k) fromMatch_toMatch"
    and "hmm_t (profile_counts msa profile) k p7H_MI = pp_Match (prof_positions profile ! k) fromMatch_toInsertion"
    and "hmm_t (profile_counts msa profile) k p7H_MD = pp_Match (prof_positions profile ! k) fromMatch_toDeletion"
    and "hmm_t (profile_counts msa profile) k p7H_IM = pp_Insertion (prof_positions profile ! k) fromInsertion_toMatch"
    and "hmm_t (profile_counts msa profile) k p7H_II = pp_Insertion (prof_positions profile ! k) fromInsertion_toInsertion"
    and "hmm_t (profile_counts msa profile) k p7H_DM = pp_Deletion (prof_positions profile ! k) fromDeletion_toMatch"
    and "hmm_t (profile_counts msa profile) k p7H_DD = pp_Deletion (prof_positions profile ! k) fromDeletion_toDeletion"
proof -
  from profile_counts_interior_row[OF assms] obtain h where
    h: "hmm_t (profile_counts msa profile) k = hmm_t (fill_position msa profile k h) k" ..
  have ne: "k \<noteq> length (prof_positions profile) - 1" using assms(2) by simp
  show "hmm_t (profile_counts msa profile) k p7H_MM = pp_Match (prof_positions profile ! k) fromMatch_toMatch"
    unfolding h by (rule fill_position_t_interior[OF ne])
  show "hmm_t (profile_counts msa profile) k p7H_MI = pp_Match (prof_positions profile ! k) fromMatch_toInsertion"
    unfolding h by (rule fill_position_t_interior[OF ne])
  show "hmm_t (profile_counts msa profile) k p7H_MD = pp_Match (prof_positions profile ! k) fromMatch_toDeletion"
    unfolding h by (rule fill_position_t_interior[OF ne])
  show "hmm_t (profile_counts msa profile) k p7H_IM = pp_Insertion (prof_positions profile ! k) fromInsertion_toMatch"
    unfolding h by (rule fill_position_t_interior[OF ne])
  show "hmm_t (profile_counts msa profile) k p7H_II = pp_Insertion (prof_positions profile ! k) fromInsertion_toInsertion"
    unfolding h by (rule fill_position_t_interior[OF ne])
  show "hmm_t (profile_counts msa profile) k p7H_DM = pp_Deletion (prof_positions profile ! k) fromDeletion_toMatch"
    unfolding h by (rule fill_position_t_interior[OF ne])
  show "hmm_t (profile_counts msa profile) k p7H_DD = pp_Deletion (prof_positions profile ! k) fromDeletion_toDeletion"
    unfolding h by (rule fill_position_t_interior[OF ne])
qed

text \<open>Claim C8. For a profile of length \<open>L \<ge> 1\<close> the converter succeeds, and every
  per-position distribution of the model it returns (the transition row and both emission
  rows of every node \<open>0..M\<close>) is the one filled from the profile multiplied by
  \<^verbatim>\<open>nseq\<close> of the alignment; at an interior position \<open>1 \<le> k < L-1\<close> the seven
  transition counts are the profile's probabilities at position \<open>k\<close> times
  \<^verbatim>\<open>nseq\<close>.\<close>

theorem modelmaker_scales_by_nseq:
  assumes "prof_positions profile \<noteq> []"
  shows "\<exists>hmm msa'. profillic_p7_Profillicmodelmaker msa profile = (eslOK, Some hmm, msa') \<and>
           (\<forall>k \<le> hmm_M hmm.
              (\<forall>tr. hmm_t hmm k tr = hmm_t (profile_counts msa profile) k tr * real_of_int (msa_nseq msa)) \<and>
              (\<forall>x < abc_K (hmm_abc hmm).
                  hmm_mat hmm k x = hmm_mat (profile_counts msa profile) k x * real_of_int (msa_nseq msa) \<and>
                  hmm_ins hmm k x = hmm_ins (profile_counts msa profile) k x * real_of_int (msa_nseq msa))) \<and>
           (\<forall>k. 1 \<le> k \<and> k < length (prof_positions profile) - 1 \<longrightarrow>
              hmm_t hmm k p7H_MM = pp_Match (prof_positions profile ! k) fromMatch_toMatch * real_of_int (msa_nseq msa) \<and>
              hmm_t hmm k p7H_MI = pp_Match (prof_positions profile ! k) fromMatch_toInsertion * real_of_int (msa_nseq msa) \<and>
              hmm_t hmm k p7H_MD = pp_Match (prof_positions profile ! k) fromMatch_toDeletion * real_of_int (msa_nseq msa) \<and>
              hmm_t hmm k p7H_IM = pp_Insertion (prof_positions profile ! k) fromInsertion_toMatch * real_of_int (msa_nseq msa) \<and>
              hmm_t hmm k p7H_II = pp_Insertion (prof_positions profile ! k) fromInsertion_toInsertion * real_of_int (msa_nseq msa) \<and>
              hmm_t hmm k p7H_DM = pp_Deletion (prof_positions profile ! k) fromDeletion_toMatch * real_of_int (msa_nseq msa) \<and>
              hmm_t hmm k p7H_DD = pp_Deletion (prof_positions profile ! k) fromDeletion_toDeletion * real_of_int (msa_nseq msa))"
proof -
  define hmm where "hmm = p7_hmm_Scale (profile_counts msa profile) (real_of_int (msa_nseq msa))"
  define msa' where "msa' = msa\<lparr>msa_rf := Some (replicate (msa_alen msa) (CHR ''x''))\<rparr>"
  have r: "profillic_p7_Profillicmodelmaker msa profile = (eslOK, Some hmm, msa')"
    using assms
    by (simp add: profillic_p7_Profillicmodelmaker_def Let_def hmm_def msa'_def profile_counts_shape)
  have M: "hmm_M hmm = length (prof_positions profile)"
    by (simp add: hmm_def p7_hmm_Scale_def profile_counts_shape)
  have rows: "\<forall>k \<le> hmm_M hmm.
              (\<forall>tr. hmm_t hmm k tr = hmm_t (profile_counts msa profile) k tr * real_of_int (msa_nseq msa)) \<and>
              (\<forall>x < abc_K (hmm_abc hmm).
                  hmm_mat hmm k x = hmm_mat (profile_counts msa profile) k x * real_of_int (msa_nseq msa) \<and>
                  hmm_ins hmm k x = hmm_ins (profile_counts msa profile) k x * real_of_int (msa_nseq msa))"
    by (simp add: hmm_def p7_hmm_Scale_def profile_counts_shape)
  have inner: "hmm_t hmm k tr = hmm_t (profile_counts msa profile) k tr * real_of_int (msa_nseq msa)"
    if "k < length (prof_positions profile) - 1" for k tr
  proof -
    from that have "k \<le> hmm_M hmm" unfolding M by arith
    with rows show ?thesis by blast
  qed
  have "\<forall>k. 1 \<le> k \<and> k < length (prof_positions profile) - 1 \<longrightarrow>
              hmm_t hmm k p7H_MM = pp_Match (prof_positions profile ! k) fromMatch_toMatch * real_of_int (msa_nseq msa) \<and>
              hmm_t hmm k p7H_MI = pp_Match (prof_positions profile ! k) fromMatch_toInsertion * real_of_int (msa_nseq msa) \<and>
              hmm_t hmm k p7H_MD = pp_Match (prof_positions profile ! k) fromMatch_toDeletion * real_of_int (msa_nseq msa) \<and>
              hmm_t hmm k p7H_IM = pp_Insertion (prof_positions profile ! k) fromInsertion_toMatch * real_of_int (msa_nseq msa) \<and>
              hmm_t hmm k p7H_II = pp_Insertion (prof_positions profile ! k) fromInsertion_toInsertion * real_of_int (msa_nseq msa) \<and>
              hmm_t hmm k p7H_DM = pp_Deletion (prof_positions profile ! k) fromDeletion_toMatch * real_of_int (msa_nseq msa) \<and>
              hmm_t hmm k p7H_DD = pp_Deletion (prof_positions profile ! k) fromDeletion_toDeletion * real_of_int (msa_nseq msa)"
    by (simp add: inner profile_counts_interior)
  with r rows show ?thesis by blast
qed

lemmas fill_defs = profile_counts_def fill_first_position_def fill_position_def
  profillic_annotate_model_def p7_hmm_Zero_def p7_hmm_Create_def set_t_def set_mat_def set_ins_def
  digitized_residue_def example_profile_def example_position_def example_msa_def dna_abc_def uniform4_def Let_def

lemma upt_small: "[0..<4] = [0, 1, 2, 3]" "[Suc 0..<4] = [1, 2, 3]" "[1..<3] = [1, 2]"
  by (simp_all add: upt_rec)

lemma example_counts:
  "hmm_t (profile_counts example_msa example_profile) 1 p7H_MM = 9 / 10"
  "hmm_t (profile_counts example_msa example_profile) 2 p7H_MM = 9 / 10"
  "hmm_t (profile_counts example_msa example_profile) 2 p7H_MD = 0"
  "hmm_t (profile_counts example_msa example_profile) 0 p7H_II = 1 / 10"
  "hmm_t (profile_counts example_msa example_profile) 3 p7H_MM = 0"
  "hmm_mat (profile_counts example_msa example_profile) 1 0 = 7 / 10"
  "hmm_mat (profile_counts example_msa example_profile) 0 0 = 1"
  "hmm_ins (profile_counts example_msa example_profile) 1 2 = 1 / 4"
  by (simp_all add: fill_defs upt_small)

theorem modelmaker_scales_by_nseq_witness:
  "prof_positions example_profile \<noteq> [] \<and>
   (\<exists>hmm msa'. profillic_p7_Profillicmodelmaker example_msa example_profile = (eslOK, Some hmm, msa') \<and>
                hmm_t hmm 1 p7H_MM = 9 / 10 * 10 \<and> hmm_mat hmm 1 0 = 7 / 10 * 10 \<and>
                hmm_ins hmm 1 2 = 1 / 4 * 10)"
proof -
  have a: "prof_positions example_profile \<noteq> []" by (simp add: example_profile_def)
  from modelmaker_scales_by_nseq[OF a, of example_msa] obtain hmm msa' where
    m: "profillic_p7_Profillicmodelmaker example_msa example_profile = (eslOK, Some hmm, msa')"
    and s: "\<forall>k \<le> hmm_M hmm.
              (\<forall>tr. hmm_t hmm k tr = hmm_t (profile_counts example_msa example_profile) k tr
                                        * real_of_int (msa_nseq example_msa)) \<and>
              (\<forall>x < abc_K (hmm_abc hmm).
                  hmm_mat hmm k x = hmm_mat (profile_counts example_msa example_profile) k x
                                      * real_of_int (msa_nseq example_msa) \<and>
                  hmm_ins hmm k x = hmm_ins (profile_counts example_msa example_profile) k x
                                      * real_of_int (msa_nseq example_msa))"
    by blast
  from m a have hm: "hmm_M hmm = 3" "abc_K (hmm_abc hmm) = 4"
    by (auto simp: profillic_p7_Profillicmodelmaker_def Let_def p7_hmm_Scale_def profile_counts_shape
          example_profile_def example_msa_def dna_abc_def)
  have n: "real_of_int (msa_nseq example_msa) = 10" by (simp add: example_msa_def)
  from s hm have "hmm_t hmm 1 p7H_MM = hmm_t (profile_counts example_msa example_profile) 1 p7H_MM * 10"
    and "hmm_mat hmm 1 0 = hmm_mat (profile_counts example_msa example_profile) 1 0 * 10"
    and "hmm_ins hmm 1 2 = hmm_ins (profile_counts example_msa example_profile) 1 2 * 10"
    unfolding n by simp_all
  then have "hmm_t hmm 1 p7H_MM = 9 / 10 * 10 \<and> hmm_mat hmm 1 0 = 7 / 10 * 10 \<and> hmm_ins hmm 1 2 = 1 / 4 * 10"
    unfolding example_counts by simp
  with a m show ?thesis by blast
qed

section \<open>Properties of the reweighter\<close>

lemma p7_hmm_Scale_one: "p7_hmm_Scale hmm 1 = hmm"
  by (simp add: p7_hmm_Scale_def cong: if_cong)

lemma example_counts_hmm_shape:
  "hmm_M example_counts_hmm = 3" "abc_K (hmm_abc example_counts_hmm) = 4"
  "hmm_nseq example_counts_hmm = 10"
  by (simp_all add: example_counts_hmm_def p7_hmm_Scale_def profile_counts_shape
        example_profile_def example_msa_def dna_abc_def)

text \<open>Claim C9. With the strategy \<^verbatim>\<open>p7_EFFN_NONE\<close>, for a count model whose
  \<^verbatim>\<open>nseq\<close> is the alignment's and is not zero, \<^verbatim>\<open>eff_nseq\<close> becomes \<^verbatim>\<open>nseq\<close>, the
  rescaling factor \<^verbatim>\<open>eff_nseq / nseq\<close> is one, and the function returns \<^verbatim>\<open>eslOK\<close>
  with every transition and emission count (and every other field) unchanged.\<close>

theorem effective_seqnumber_none:
  assumes "bld_effn_strategy bld = p7_EFFN_NONE"
    and "hmm_nseq hmm = msa_nseq msa" and "msa_nseq msa \<noteq> 0"
  shows "effective_seqnumber ext bld msa bg hmm
           = (eslOK, hmm\<lparr>hmm_eff_nseq := real_of_int (msa_nseq msa)\<rparr>)"
  using assms by (simp add: effective_seqnumber_def Let_def p7_hmm_Scale_one)

theorem effective_seqnumber_none_witness:
  "bld_effn_strategy example_bld = p7_EFFN_NONE \<and>
   hmm_nseq example_counts_hmm = msa_nseq example_msa \<and> msa_nseq example_msa = 10 \<and>
   effective_seqnumber example_ext example_bld example_msa example_bg example_counts_hmm
     = (eslOK, example_counts_hmm\<lparr>hmm_eff_nseq := 10\<rparr>)"
proof -
  have a: "bld_effn_strategy example_bld = p7_EFFN_NONE" by (simp add: example_bld_def)
  have n: "msa_nseq example_msa = 10" by (simp add: example_msa_def)
  have b: "hmm_nseq example_counts_hmm = msa_nseq example_msa" by (simp add: example_counts_hmm_shape n)
  have c: "msa_nseq example_msa \<noteq> 0" by (simp add: n)
  from effective_seqnumber_none[OF a b c, of example_ext example_bg] a b n show ?thesis by simp
qed

section \<open>Properties of the parameterizer\<close>

lemma sum_list_divide: "sum_list (map (\<lambda>x. f x / c) xs) = sum_list (map f xs) / (c::real)"
  by (induction xs) (simp_all add: add_divide_distrib)

lemma FNorm_sum:
  assumes "cells \<noteq> []"
  shows "row_sum cells (esl_vec_FNorm cells vec) = 1"
proof (cases "sum_list (map vec cells) = 0")
  case True
  have "sum_list (map (\<lambda>x. if x \<in> set cells then 1 / real (length cells) else vec x) cells)
          = sum_list (map (\<lambda>x. 1 / real (length cells)) cells)"
    by (rule arg_cong[where f = sum_list], rule map_cong) simp_all
  also have "\<dots> = real (length cells) * (1 / real (length cells))"
    by (simp add: sum_list_triv)
  also have "\<dots> = 1" using assms by simp
  finally show ?thesis using True by (simp add: row_sum_def esl_vec_FNorm_def)
next
  case False
  have "sum_list (map (\<lambda>x. if x \<in> set cells then vec x / sum_list (map vec cells) else vec x) cells)
          = sum_list (map (\<lambda>x. vec x / sum_list (map vec cells)) cells)"
    by (rule arg_cong[where f = sum_list], rule map_cong) simp_all
  also have "\<dots> = sum_list (map vec cells) / sum_list (map vec cells)" by (rule sum_list_divide)
  also have "\<dots> = 1" using False by simp
  finally show ?thesis using False by (simp add: row_sum_def esl_vec_FNorm_def)
qed

lemma FNorm_other: "x \<notin> set cells \<Longrightarrow> esl_vec_FNorm cells vec x = vec x"
  by (simp add: esl_vec_FNorm_def Let_def)

lemma row_sum_cong: "(\<And>x. x \<in> set cells \<Longrightarrow> f x = g x) \<Longrightarrow> row_sum cells f = row_sum cells g"
  unfolding row_sum_def by (rule arg_cong[where f = sum_list], rule map_cong) simp_all

lemma fold_norm_row:
  "distinct ks \<Longrightarrow>
   fold (norm_row cells) ks a = (\<lambda>k. if k \<in> set ks then esl_vec_FNorm cells (a k) else a k)"
proof (induction ks arbitrary: a)
  case Nil
  then show ?case by simp
next
  case (Cons k ks)
  then show ?case by (auto simp: norm_row_def fun_eq_iff)
qed

lemma FNorm3:
  "esl_vec_FNorm [a, b, c] v a + (esl_vec_FNorm [a, b, c] v b + esl_vec_FNorm [a, b, c] v c) = 1"
  using FNorm_sum[of "[a, b, c]" v] by (simp add: row_sum_def)

lemma FNorm2: "esl_vec_FNorm [a, b] v a + esl_vec_FNorm [a, b] v b = 1"
  using FNorm_sum[of "[a, b]" v] by (simp add: row_sum_def)

lemma normalize_counts_t:
  assumes "k \<le> hmm_M hmm"
  shows "hmm_t (normalize_counts hmm) k =
     (let m = hmm_M hmm; r0 = hmm_t hmm k;
          r1 = (if k < m then esl_vec_FNorm [p7H_MM, p7H_MI, p7H_MD] r0
                else esl_vec_FNorm [p7H_MM, p7H_MI, p7H_MD] (r0(p7H_MD := 0)));
          r2 = esl_vec_FNorm [p7H_IM, p7H_II] r1;
          r3 = (if 1 \<le> k \<and> k < m then esl_vec_FNorm [p7H_DM, p7H_DD] r2 else r2)
      in if k = 0 \<or> k = m then r3(p7H_DM := 1, p7H_DD := 0) else r3)"
  using assms
  by (auto simp: normalize_counts_def Let_def fold_norm_row norm_row_def)

lemma normalize_counts_t_sums:
  assumes "k \<le> hmm_M hmm"
  shows "row_sum [p7H_MM, p7H_MI, p7H_MD] (hmm_t (normalize_counts hmm) k) = 1"
    and "row_sum [p7H_IM, p7H_II] (hmm_t (normalize_counts hmm) k) = 1"
    and "row_sum [p7H_DM, p7H_DD] (hmm_t (normalize_counts hmm) k) = 1"
  unfolding normalize_counts_t[OF assms] Let_def row_sum_def
  using assms by (simp_all add: FNorm_other FNorm3 FNorm2)

lemma one_hot_sum:
  assumes "0 < K"
  shows "sum_list (map (\<lambda>x. if x = 0 then 1 else (0::real)) [0..<K]) = 1"
proof -
  have "sum_list (map (\<lambda>x. if x = 0 then 1 else (0::real)) [0..<K])
          = (\<Sum>x \<in> set [0..<K]. if x = 0 then 1 else 0)"
    by (rule sum_set_upt_conv_sum_list_nat[symmetric])
  also have "\<dots> = 1" using assms by (simp add: sum.delta)
  finally show ?thesis .
qed

lemma normalize_counts_mat_sums:
  assumes "k \<le> hmm_M hmm" "0 < abc_K (hmm_abc hmm)"
  shows "row_sum [0..<abc_K (hmm_abc hmm)] (hmm_mat (normalize_counts hmm) k) = 1"
proof (cases "k = 0")
  case True
  have "row_sum [0..<abc_K (hmm_abc hmm)] (hmm_mat (normalize_counts hmm) 0)
          = row_sum [0..<abc_K (hmm_abc hmm)] (\<lambda>x. if x = 0 then 1 else 0)"
    by (rule row_sum_cong) (simp add: normalize_counts_def Let_def esl_vec_FSet_def)
  also have "\<dots> = 1" unfolding row_sum_def using assms(2) by (rule one_hot_sum)
  finally show ?thesis using True by simp
next
  case False
  with assms(1) have "hmm_mat (normalize_counts hmm) k
                        = esl_vec_FNorm [0..<abc_K (hmm_abc hmm)] (hmm_mat hmm k)"
    by (simp add: normalize_counts_def Let_def fold_norm_row del: upt_Suc)
  moreover have "[0..<abc_K (hmm_abc hmm)] \<noteq> []" using assms(2) by simp
  ultimately show ?thesis by (simp add: FNorm_sum)
qed

lemma normalize_counts_ins_sums:
  assumes "k \<le> hmm_M hmm" "0 < abc_K (hmm_abc hmm)"
  shows "row_sum [0..<abc_K (hmm_abc hmm)] (hmm_ins (normalize_counts hmm) k) = 1"
proof -
  from assms(1) have "hmm_ins (normalize_counts hmm) k
                        = esl_vec_FNorm [0..<abc_K (hmm_abc hmm)] (hmm_ins hmm k)"
    by (simp add: normalize_counts_def Let_def fold_norm_row del: upt_Suc)
  moreover have "[0..<abc_K (hmm_abc hmm)] \<noteq> []" using assms(2) by simp
  ultimately show ?thesis by (simp add: FNorm_sum)
qed

lemma normalize_counts_shape:
  "hmm_M (normalize_counts hmm) = hmm_M hmm" "hmm_abc (normalize_counts hmm) = hmm_abc hmm"
  "hmm_max_length (normalize_counts hmm) = hmm_max_length hmm"
  by (simp_all add: normalize_counts_def Let_def)

lemma normalize_counts_rows:
  assumes "0 < abc_K (hmm_abc hmm)"
  shows "rows_normalized (normalize_counts hmm)"
  unfolding rows_normalized_def normalize_counts_shape
  using assms
  by (simp add: normalize_counts_t_sums normalize_counts_mat_sums normalize_counts_ins_sums)

lemma normalize_counts_conventions: "boundary_conventions (normalize_counts hmm)"
  unfolding boundary_conventions_def normalize_counts_shape
  by (simp add: normalize_counts_t Let_def FNorm_other)
     (simp add: normalize_counts_def Let_def esl_vec_FSet_def)

lemma sum_list_pos_member:
  fixes f :: "'a \<Rightarrow> real"
  assumes "\<forall>x \<in> set xs. 0 \<le> f x" "y \<in> set xs" "0 < f y"
  shows "0 < sum_list (map f xs)"
  using assms
proof (induction xs)
  case Nil
  then show ?case by simp
next
  case (Cons a xs)
  have nn: "0 \<le> sum_list (map f xs)" using Cons.prems(1) by (intro sum_list_nonneg) auto
  show ?case
  proof (cases "y = a")
    case True
    with Cons.prems(3) nn show ?thesis by simp
  next
    case False
    with Cons.prems have "0 < sum_list (map f xs)" by (intro Cons.IH) auto
    moreover have "0 \<le> f a" using Cons.prems(1) by simp
    ultimately show ?thesis by simp
  qed
qed

lemma sum_list_swap:
  fixes f :: "'a \<Rightarrow> 'b \<Rightarrow> real"
  shows "sum_list (map (\<lambda>x. sum_list (map (f x) ys)) xs)
           = sum_list (map (\<lambda>y. sum_list (map (\<lambda>x. f x y) xs)) ys)"
  by (induction xs) (simp_all add: sum_list_addf)

lemma sum_list_mult_left:
  fixes f :: "'a \<Rightarrow> real"
  shows "sum_list (map (\<lambda>x. c * f x) xs) = c * sum_list (map f xs)"
  by (induction xs) (simp_all add: distrib_left)

lemma MP_sum:
  assumes ne: "cells \<noteq> []"
    and ok: "mixture_ok cells d"
    and nn: "\<forall>x \<in> set cells. 0 \<le> c x"
  shows "row_sum cells (esl_mixdchlet_MPParameters logp cells d c) = 1"
proof -
  define totc where "totc = sum_list (map c cells)"
  define score where "score = (\<lambda>comp. fst comp * exp (logp (snd comp) c))"
  define tot where "tot = sum_list (map score d)"
  define den where "den = (\<lambda>comp :: real \<times> ('a \<Rightarrow> real). totc + sum_list (map (snd comp) cells))"
  have totc: "0 \<le> totc" unfolding totc_def using nn by (intro sum_list_nonneg) auto
  obtain x0 where x0: "x0 \<in> set cells" using ne by (cases cells) auto
  have den: "0 < den comp" if "comp \<in> set d" for comp
  proof -
    from ok that have pos: "\<forall>x \<in> set cells. 0 < snd comp x" by (auto simp: mixture_ok_def)
    then have "\<forall>x \<in> set cells. 0 \<le> snd comp x" by (auto intro: less_imp_le)
    with pos x0 have "0 < sum_list (map (snd comp) cells)" by (intro sum_list_pos_member[of _ _ x0]) auto
    with totc show ?thesis by (simp add: den_def)
  qed
  have tot: "0 < tot"
  proof -
    from ok obtain comp where comp: "comp \<in> set d" "0 < fst comp" by (auto simp: mixture_ok_def)
    have "\<forall>cp \<in> set d. 0 \<le> score cp" using ok by (auto simp: mixture_ok_def score_def)
    moreover have "0 < score comp" using comp(2) by (simp add: score_def)
    ultimately show ?thesis unfolding tot_def using comp(1) by (intro sum_list_pos_member[of _ _ comp]) auto
  qed
  have inner: "sum_list (map (\<lambda>x. score comp / tot * ((c x + snd comp x) / den comp)) cells)
                 = score comp / tot" if "comp \<in> set d" for comp
  proof -
    have "sum_list (map (\<lambda>x. score comp / tot * ((c x + snd comp x) / den comp)) cells)
            = score comp / tot * sum_list (map (\<lambda>x. (c x + snd comp x) / den comp) cells)"
      by (rule sum_list_mult_left)
    also have "sum_list (map (\<lambda>x. (c x + snd comp x) / den comp) cells)
                 = sum_list (map (\<lambda>x. c x + snd comp x) cells) / den comp"
      by (rule sum_list_divide)
    also have "sum_list (map (\<lambda>x. c x + snd comp x) cells) = den comp"
      by (simp add: sum_list_addf den_def totc_def)
    also have "den comp / den comp = 1" using den[OF that] by simp
    finally show ?thesis by simp
  qed
  have "row_sum cells (esl_mixdchlet_MPParameters logp cells d c)
          = row_sum cells (\<lambda>x. sum_list (map (\<lambda>comp. score comp / tot * ((c x + snd comp x) / den comp)) d))"
    by (rule row_sum_cong)
       (simp add: esl_mixdchlet_MPParameters_def Let_def score_def tot_def den_def totc_def)
  also have "\<dots> = sum_list (map (\<lambda>comp. sum_list (map (\<lambda>x. score comp / tot * ((c x + snd comp x) / den comp)) cells)) d)"
    unfolding row_sum_def by (rule sum_list_swap)
  also have "\<dots> = sum_list (map (\<lambda>comp. score comp / tot) d)"
    by (rule arg_cong[where f = sum_list], rule map_cong, rule refl, rule inner)
  also have "\<dots> = sum_list (map score d) / tot" by (rule sum_list_divide)
  also have "\<dots> = 1" using tot by (simp add: tot_def)
  finally show ?thesis .
qed

lemma MP_other: "x \<notin> set cells \<Longrightarrow> esl_mixdchlet_MPParameters logp cells d c x = c x"
  by (simp add: esl_mixdchlet_MPParameters_def Let_def)

lemma fold_mp_row:
  "distinct ks \<Longrightarrow>
   fold (mp_row logp cells d) ks a
     = (\<lambda>k. if k \<in> set ks then esl_mixdchlet_MPParameters logp cells d (a k) else a k)"
proof (induction ks arbitrary: a)
  case Nil
  then show ?case by simp
next
  case (Cons k ks)
  then show ?case by (auto simp: mp_row_def fun_eq_iff)
qed

lemma MP3:
  assumes "mixture_ok [a, b, c] d" "0 \<le> v a" "0 \<le> v b" "0 \<le> v c"
  shows "esl_mixdchlet_MPParameters logp [a, b, c] d v a
           + (esl_mixdchlet_MPParameters logp [a, b, c] d v b
              + esl_mixdchlet_MPParameters logp [a, b, c] d v c) = 1"
  using MP_sum[of "[a, b, c]" d v logp] assms by (simp add: row_sum_def)

lemma MP2:
  assumes "mixture_ok [a, b] d" "0 \<le> v a" "0 \<le> v b"
  shows "esl_mixdchlet_MPParameters logp [a, b] d v a
           + esl_mixdchlet_MPParameters logp [a, b] d v b = 1"
  using MP_sum[of "[a, b]" d v logp] assms by (simp add: row_sum_def)

lemma ParameterEstimation_t:
  assumes "k \<le> hmm_M hmm"
  shows "hmm_t (p7_ParameterEstimation lt le pri hmm) k =
     (let m = hmm_M hmm; r0 = hmm_t hmm k;
          r1 = (if k < m then esl_mixdchlet_MPParameters lt [p7H_MM, p7H_MI, p7H_MD] (pri_tm pri) r0
                else esl_vec_FNorm [p7H_MM, p7H_MI, p7H_MD]
                       ((esl_mixdchlet_MPParameters lt [p7H_MM, p7H_MI, p7H_MD] (pri_tm pri) r0)(p7H_MD := 0)));
          r2 = esl_mixdchlet_MPParameters lt [p7H_IM, p7H_II] (pri_ti pri) r1;
          r3 = (if 1 \<le> k \<and> k < m then esl_mixdchlet_MPParameters lt [p7H_DM, p7H_DD] (pri_td pri) r2 else r2)
      in if k = 0 \<or> k = m then r3(p7H_DM := 1, p7H_DD := 0) else r3)"
  using assms
  by (auto simp: p7_ParameterEstimation_def Let_def fold_mp_row norm_row_def simp del: upt_Suc)

lemma ParameterEstimation_shape:
  "hmm_M (p7_ParameterEstimation lt le pri hmm) = hmm_M hmm"
  "hmm_abc (p7_ParameterEstimation lt le pri hmm) = hmm_abc hmm"
  "hmm_max_length (p7_ParameterEstimation lt le pri hmm) = hmm_max_length hmm"
  by (simp_all add: p7_ParameterEstimation_def Let_def)

lemma ParameterEstimation_t_sums:
  assumes "k \<le> hmm_M hmm" and "prior_ok (abc_K (hmm_abc hmm)) pri" and "counts_nonneg hmm"
  shows "row_sum [p7H_MM, p7H_MI, p7H_MD] (hmm_t (p7_ParameterEstimation lt le pri hmm) k) = 1"
    and "row_sum [p7H_IM, p7H_II] (hmm_t (p7_ParameterEstimation lt le pri hmm) k) = 1"
    and "row_sum [p7H_DM, p7H_DD] (hmm_t (p7_ParameterEstimation lt le pri hmm) k) = 1"
proof -
  have nn: "0 \<le> hmm_t hmm j tr" if "j \<le> hmm_M hmm" for j tr
    using that assms(3) by (simp add: counts_nonneg_def)
  have m: "mixture_ok [p7H_MM, p7H_MI, p7H_MD] (pri_tm pri)"
    and i: "mixture_ok [p7H_IM, p7H_II] (pri_ti pri)"
    and d: "mixture_ok [p7H_DM, p7H_DD] (pri_td pri)"
    using assms(2) by (simp_all add: prior_ok_def)
  show "row_sum [p7H_MM, p7H_MI, p7H_MD] (hmm_t (p7_ParameterEstimation lt le pri hmm) k) = 1"
    unfolding ParameterEstimation_t[OF assms(1)] Let_def row_sum_def
    using assms(1) by (simp add: FNorm_other MP_other FNorm3 MP3[OF m] nn)
  show "row_sum [p7H_IM, p7H_II] (hmm_t (p7_ParameterEstimation lt le pri hmm) k) = 1"
    unfolding ParameterEstimation_t[OF assms(1)] Let_def row_sum_def
    using assms(1) by (simp add: FNorm_other MP_other MP2[OF i] nn)
  show "row_sum [p7H_DM, p7H_DD] (hmm_t (p7_ParameterEstimation lt le pri hmm) k) = 1"
    unfolding ParameterEstimation_t[OF assms(1)] Let_def row_sum_def
    using assms(1) by (simp add: FNorm_other MP_other MP2[OF d] nn)
qed

lemma ParameterEstimation_mat_sums:
  assumes "k \<le> hmm_M hmm" "0 < abc_K (hmm_abc hmm)"
    and "prior_ok (abc_K (hmm_abc hmm)) pri" and "counts_nonneg hmm"
  shows "row_sum [0..<abc_K (hmm_abc hmm)] (hmm_mat (p7_ParameterEstimation lt le pri hmm) k) = 1"
proof (cases "k = 0")
  case True
  have "row_sum [0..<abc_K (hmm_abc hmm)] (hmm_mat (p7_ParameterEstimation lt le pri hmm) 0)
          = row_sum [0..<abc_K (hmm_abc hmm)] (\<lambda>x. if x = 0 then 1 else 0)"
    by (rule row_sum_cong) (simp add: p7_ParameterEstimation_def Let_def esl_vec_FSet_def)
  also have "\<dots> = 1" unfolding row_sum_def using assms(2) by (rule one_hot_sum)
  finally show ?thesis using True by simp
next
  case False
  with assms(1) have "hmm_mat (p7_ParameterEstimation lt le pri hmm) k
          = esl_mixdchlet_MPParameters le [0..<abc_K (hmm_abc hmm)] (pri_em pri) (hmm_mat hmm k)"
    by (simp add: p7_ParameterEstimation_def Let_def fold_mp_row del: upt_Suc)
  moreover have "[0..<abc_K (hmm_abc hmm)] \<noteq> []" using assms(2) by simp
  moreover have "mixture_ok [0..<abc_K (hmm_abc hmm)] (pri_em pri)"
    using assms(3) by (simp add: prior_ok_def)
  moreover have "\<forall>x \<in> set [0..<abc_K (hmm_abc hmm)]. 0 \<le> hmm_mat hmm k x"
    using assms(1,4) by (simp add: counts_nonneg_def)
  ultimately show ?thesis by (simp add: MP_sum)
qed

lemma ParameterEstimation_ins_sums:
  assumes "k \<le> hmm_M hmm" "0 < abc_K (hmm_abc hmm)"
    and "prior_ok (abc_K (hmm_abc hmm)) pri" and "counts_nonneg hmm"
  shows "row_sum [0..<abc_K (hmm_abc hmm)] (hmm_ins (p7_ParameterEstimation lt le pri hmm) k) = 1"
proof -
  from assms(1) have "hmm_ins (p7_ParameterEstimation lt le pri hmm) k
          = esl_mixdchlet_MPParameters le [0..<abc_K (hmm_abc hmm)] (pri_ei pri) (hmm_ins hmm k)"
    by (simp add: p7_ParameterEstimation_def Let_def fold_mp_row del: upt_Suc)
  moreover have "[0..<abc_K (hmm_abc hmm)] \<noteq> []" using assms(2) by simp
  moreover have "mixture_ok [0..<abc_K (hmm_abc hmm)] (pri_ei pri)"
    using assms(3) by (simp add: prior_ok_def)
  moreover have "\<forall>x \<in> set [0..<abc_K (hmm_abc hmm)]. 0 \<le> hmm_ins hmm k x"
    using assms(1,4) by (simp add: counts_nonneg_def)
  ultimately show ?thesis by (simp add: MP_sum)
qed

lemma ParameterEstimation_rows:
  assumes "0 < abc_K (hmm_abc hmm)" "prior_ok (abc_K (hmm_abc hmm)) pri" "counts_nonneg hmm"
  shows "rows_normalized (p7_ParameterEstimation lt le pri hmm)"
  unfolding rows_normalized_def ParameterEstimation_shape
  using assms
  by (simp add: ParameterEstimation_t_sums ParameterEstimation_mat_sums ParameterEstimation_ins_sums)

lemma ParameterEstimation_conventions:
  "boundary_conventions (p7_ParameterEstimation lt le pri hmm)"
  unfolding boundary_conventions_def ParameterEstimation_shape
  by (simp add: ParameterEstimation_t Let_def FNorm_other MP_other)
     (simp add: p7_ParameterEstimation_def Let_def esl_vec_FSet_def)

lemma laplace_prior_ok: "prior_ok K laplace_prior"
  by (simp add: prior_ok_def mixture_ok_def laplace_prior_def)

lemma Scale_nonneg:
  assumes "counts_nonneg hmm" "0 \<le> c"
  shows "counts_nonneg (p7_hmm_Scale hmm c)"
  using assms by (simp add: counts_nonneg_def p7_hmm_Scale_def)

lemma example_counts_nonneg: "counts_nonneg example_counts_hmm"
proof -
  have k: "k = 0 \<or> k = 1 \<or> k = 2 \<or> k = 3" if "k \<le> 3" for k :: nat using that by arith
  have x: "x = 0 \<or> x = 1 \<or> x = 2 \<or> x = 3" if "x < 4" for x :: nat using that by arith
  have t: "0 \<le> hmm_t (profile_counts example_msa example_profile) k tr" if "k \<le> 3" for k tr
    using k[OF that] by (cases tr) (auto simp: fill_defs upt_small)
  have m: "0 \<le> hmm_mat (profile_counts example_msa example_profile) k x" if "k \<le> 3" "x < 4" for k x
    using k[OF that(1)] x[OF that(2)] by (auto simp: fill_defs upt_small)
  have i: "0 \<le> hmm_ins (profile_counts example_msa example_profile) k x" if "k \<le> 3" "x < 4" for k x
    using k[OF that(1)] x[OF that(2)] by (auto simp: fill_defs upt_small)
  have s: "hmm_M (profile_counts example_msa example_profile) = 3"
          "abc_K (hmm_abc (profile_counts example_msa example_profile)) = 4"
    by (simp_all add: profile_counts_shape example_profile_def example_msa_def dna_abc_def)
  have "counts_nonneg (profile_counts example_msa example_profile)"
    unfolding counts_nonneg_def s using t m i by simp
  moreover have "0 \<le> real_of_int (msa_nseq example_msa)" by (simp add: example_msa_def)
  ultimately show ?thesis unfolding example_counts_hmm_def by (rule Scale_nonneg)
qed

lemma laplace_estimate_value:
  "hmm_t (p7_ParameterEstimation (\<lambda>alpha c. 0) (\<lambda>alpha c. 0) laplace_prior example_counts_hmm) 1 p7H_MM
     = 10 / 13"
  by (simp add: ParameterEstimation_t example_counts_hmm_shape Let_def MP_other
        esl_mixdchlet_MPParameters_def laplace_prior_def example_counts_hmm_def p7_hmm_Scale_def
        profile_counts_shape example_profile_def example_msa_def dna_abc_def)
     (simp add: fill_defs upt_small)

text \<open>Claim C5. Let the alphabet have at least one residue. When the parameterizer
  returns \<^verbatim>\<open>eslOK\<close>, every transition-group row (match triple, insert pair, delete
  pair) and both emission rows of every node \<open>0..M\<close> of the model sum to one within
  \<open>1/10^6\<close>, the delete rows of nodes 0 and \<open>M\<close> are \<open>D\<rightarrow>M = 1\<close>, \<open>D\<rightarrow>D = 0\<close>
  and \<open>mat[0]\<close> is one-hot. Without priors this is the code itself. With priors the
  external estimator is the posterior-mean estimator of a well-formed Dirichlet-mixture
  prior, applied to counts that are not negative.\<close>

theorem parameterize_rows_sum_to_one:
  assumes "0 < abc_K (hmm_abc hmm)"
    and "use_priors \<longrightarrow>
           snd (x_ParameterEstimation ext hmm) = p7_ParameterEstimation logp_t logp_e pri hmm \<and>
           prior_ok (abc_K (hmm_abc hmm)) pri \<and> counts_nonneg hmm"
    and "profillic_parameterize ext bld use_priors hmm = (eslOK, hmm')"
  shows "rows_normalized hmm' \<and> boundary_conventions hmm'"
proof (cases use_priors)
  case True
  with assms(3) have "hmm' = snd (x_ParameterEstimation ext hmm)"
    by (simp add: profillic_parameterize_def)
  with True assms(2) have "hmm' = p7_ParameterEstimation logp_t logp_e pri hmm" by simp
  with True assms(1,2) show ?thesis
    by (simp add: ParameterEstimation_rows ParameterEstimation_conventions)
next
  case False
  with assms(3) have "hmm' = normalize_counts hmm" by (simp add: profillic_parameterize_def)
  with assms(1) show ?thesis by (simp add: normalize_counts_rows normalize_counts_conventions)
qed

theorem parameterize_rows_sum_to_one_witness:
  "0 < abc_K (hmm_abc example_counts_hmm) \<and>
   prior_ok (abc_K (hmm_abc example_counts_hmm)) laplace_prior \<and>
   counts_nonneg example_counts_hmm \<and>
   profillic_parameterize laplace_ext example_bld False example_counts_hmm
     = (eslOK, normalize_counts example_counts_hmm) \<and>
   profillic_parameterize laplace_ext example_bld True example_counts_hmm
     = (eslOK, p7_ParameterEstimation (\<lambda>alpha c. 0) (\<lambda>alpha c. 0) laplace_prior example_counts_hmm) \<and>
   rows_normalized (normalize_counts example_counts_hmm) \<and>
   boundary_conventions (normalize_counts example_counts_hmm) \<and>
   rows_normalized (p7_ParameterEstimation (\<lambda>alpha c. 0) (\<lambda>alpha c. 0) laplace_prior example_counts_hmm) \<and>
   boundary_conventions (p7_ParameterEstimation (\<lambda>alpha c. 0) (\<lambda>alpha c. 0) laplace_prior example_counts_hmm) \<and>
   hmm_t (p7_ParameterEstimation (\<lambda>alpha c. 0) (\<lambda>alpha c. 0) laplace_prior example_counts_hmm) 1 p7H_MM
     = 10 / 13"
proof -
  let ?est = "p7_ParameterEstimation (\<lambda>alpha c. 0) (\<lambda>alpha c. 0) laplace_prior"
  have a: "0 < abc_K (hmm_abc example_counts_hmm)" by (simp add: example_counts_hmm_shape)
  have b: "False \<longrightarrow>
             snd (x_ParameterEstimation laplace_ext example_counts_hmm) = ?est example_counts_hmm \<and>
             prior_ok (abc_K (hmm_abc example_counts_hmm)) laplace_prior \<and>
             counts_nonneg example_counts_hmm" by simp
  have c: "profillic_parameterize laplace_ext example_bld False example_counts_hmm
             = (eslOK, normalize_counts example_counts_hmm)"
    by (simp add: profillic_parameterize_def)
  have b': "True \<longrightarrow>
             snd (x_ParameterEstimation laplace_ext example_counts_hmm) = ?est example_counts_hmm \<and>
             prior_ok (abc_K (hmm_abc example_counts_hmm)) laplace_prior \<and>
             counts_nonneg example_counts_hmm"
    by (simp add: laplace_ext_def laplace_prior_ok example_counts_nonneg)
  have c': "profillic_parameterize laplace_ext example_bld True example_counts_hmm
             = (eslOK, ?est example_counts_hmm)"
    by (simp add: profillic_parameterize_def laplace_ext_def)
  from parameterize_rows_sum_to_one[OF a b c] parameterize_rows_sum_to_one[OF a b' c'] a b' c c'
    laplace_estimate_value
  show ?thesis by simp
qed

section \<open>Properties of the build pipeline\<close>

lemma run_stages_keeps:
  assumes "\<And>stage s s'. stage \<in> set stages \<Longrightarrow> stage s = (eslOK, s') \<Longrightarrow> g s' = g s"
    and "run_stages stages s = (eslOK, s')"
  shows "g s' = g s"
  using assms
proof (induction stages arbitrary: s)
  case Nil
  then show ?case by simp
next
  case (Cons stage stages)
  obtain st s1 where s1: "stage s = (st, s1)" by (cases "stage s") auto
  with Cons.prems(2) have ok: "st = eslOK" and rest: "run_stages stages s1 = (eslOK, s')"
    by (auto split: if_splits)
  have "g s1 = g s" using Cons.prems(1)[of stage s s1] s1 ok by simp
  moreover have "g s' = g s1"
    using Cons.prems(1) rest by (intro Cons.IH) auto
  ultimately show ?case by simp
qed

lemma set_max_length_fields [simp]:
  "hmm_max_length (set_t k tr v h) = hmm_max_length h"
  "hmm_max_length (set_mat k x v h) = hmm_max_length h"
  "hmm_max_length (set_ins k x v h) = hmm_max_length h"
  "hmm_max_length (p7_hmm_Scale h c) = hmm_max_length h"
  "hmm_max_length (p7_hmm_Zero h) = hmm_max_length h"
  "hmm_max_length (profillic_annotate_model h msa) = hmm_max_length h"
  "hmm_max_length (copy_cutoffs msa h) = hmm_max_length h"
  by (simp_all add: set_t_def set_mat_def set_ins_def p7_hmm_Scale_def p7_hmm_Zero_def
        profillic_annotate_model_def copy_cutoffs_def Let_def split: option.splits)

lemma limit_insert_len_keeps: "hmm_max_length (limit_insert_len bld h) = hmm_max_length h"
  unfolding limit_insert_len_def by (simp add: fold_frame[where g = hmm_max_length])

lemma mask_keeps: "hmm_max_length (mask_to_background bg h) = hmm_max_length h"
proof -
  have inner: "hmm_max_length (fold (\<lambda>j. set_mat i j (bg_f bg j)) js s) = hmm_max_length s" for i js s
    by (rule fold_frame[where g = hmm_max_length]) simp
  show ?thesis
    unfolding mask_to_background_def
    by (simp split: option.splits add: fold_frame[where g = hmm_max_length] inner)
qed

lemma effective_seqnumber_keeps:
  "effective_seqnumber ext bld msa bg h = (eslOK, h') \<Longrightarrow> hmm_max_length h' = hmm_max_length h"
  by (auto simp: effective_seqnumber_def Let_def split: p7_effnchoice.splits prod.splits if_splits)

lemma parameterize_keeps:
  "keeps_max_length ext \<Longrightarrow> profillic_parameterize ext bld use_priors h = (eslOK, h') \<Longrightarrow>
   hmm_max_length h' = hmm_max_length h"
  by (auto simp: profillic_parameterize_def keeps_max_length_def normalize_counts_shape split: if_splits)

lemma annotate_keeps:
  assumes "keeps_max_length ext" "annotate ext bld msa h = (eslOK, h')"
  shows "hmm_max_length h' = hmm_max_length h"
proof (rule run_stages_keeps[OF _ assms(2)[unfolded annotate_def]])
  fix stage s s'
  assume "stage \<in> set [\<lambda>h. case msa_name msa of None \<Rightarrow> (eslEINVAL, h) | Some name \<Rightarrow> (eslOK, x_SetName ext h name),
                        \<lambda>h. x_SetAccession ext h (msa_acc msa), \<lambda>h. x_SetDescription ext h (msa_desc msa),
                        x_SetCtime ext, x_SetComposition ext, x_SetConsensus ext,
                        \<lambda>h. (eslOK, copy_cutoffs msa h)]"
    and "stage s = (eslOK, s')"
  with assms(1) show "hmm_max_length s' = hmm_max_length s"
    unfolding keeps_max_length_def by (auto split: option.splits)
qed

lemma calibrate_keeps:
  "keeps_max_length ext \<Longrightarrow> calibrate ext bld bg h = (eslOK, h') \<Longrightarrow>
   hmm_max_length h' = hmm_max_length h"
  by (auto simp: calibrate_def keeps_max_length_def)

lemma set_max_length_other:
  "abc_type (bld_abc bld) \<noteq> eslDNA \<Longrightarrow> abc_type (bld_abc bld) \<noteq> eslRNA \<Longrightarrow>
   set_max_length bld h = (eslOK, h)"
  by (simp add: set_max_length_def)

lemma first_stages_keep:
  assumes "keeps_max_length ext"
    and "run_stages [\<lambda>h. (eslOK, limit_insert_len bld h), effective_seqnumber ext bld msa bg,
                     profillic_parameterize ext bld use_priors, annotate ext bld msa,
                     calibrate ext bld bg] h = (eslOK, h')"
  shows "hmm_max_length h' = hmm_max_length h"
proof (rule run_stages_keeps[OF _ assms(2)])
  fix stage s s'
  assume "stage \<in> set [\<lambda>h. (eslOK, limit_insert_len bld h), effective_seqnumber ext bld msa bg,
                        profillic_parameterize ext bld use_priors, annotate ext bld msa,
                        calibrate ext bld bg]"
    and "stage s = (eslOK, s')"
  with assms(1) show "hmm_max_length s' = hmm_max_length s"
    by (auto simp: limit_insert_len_keeps dest: effective_seqnumber_keeps parameterize_keeps
          annotate_keeps calibrate_keeps)
qed

lemma profile_counts_max_length:
  "hmm_max_length (profile_counts msa profile)
     = hmm_max_length (p7_hmm_Create (length (prof_positions profile)) (msa_abc msa))"
proof -
  have a: "hmm_max_length (fill_first_position msa profile h) = hmm_max_length h" for h
    unfolding fill_first_position_def Let_def by (simp add: fold_frame[where g = hmm_max_length])
  have b: "hmm_max_length (fill_position msa profile pos h) = hmm_max_length h" for pos h
    unfolding fill_position_def Let_def by (simp add: fold_frame[where g = hmm_max_length])
  show ?thesis
    unfolding profile_counts_def Let_def by (simp add: a fold_frame[where g = hmm_max_length] b)
qed

lemma example_ext_keeps: "keeps_max_length example_ext"
  by (simp add: keeps_max_length_def example_ext_def normalize_counts_shape)

text \<open>Claim C10. Let the builder's alphabet be neither DNA nor RNA (amino acids, for
  one), and let the external routines leave \<^verbatim>\<open>max_length\<close> alone when they succeed.
  When \<^verbatim>\<open>profillic_p7_Builder\<close> returns \<^verbatim>\<open>eslOK\<close> with a model, the model's
  \<^verbatim>\<open>max_length\<close> is the one of the model that \<^verbatim>\<open>profillic_build_model\<close> made: no
  step of the pipeline assigns the field. For a model built from a profile this is the
  value the freshly created model carried.\<close>

theorem builder_leaves_max_length:
  assumes "abc_type (bld_abc bld) \<noteq> eslDNA" and "abc_type (bld_abc bld) \<noteq> eslRNA"
    and "keeps_max_length ext"
    and "profillic_p7_Builder ext bld msa profile_ptr bg want_postmsa use_priors
           = Some (eslOK, Some hmm, msa', postmsa)"
  shows "\<exists>hmm0. fst (snd (profillic_build_model ext bld msa profile_ptr)) = Some hmm0 \<and>
           hmm_max_length hmm = hmm_max_length hmm0 \<and>
           (\<forall>profile. profile_ptr = Some profile \<longrightarrow>
              hmm_max_length hmm
                = hmm_max_length (p7_hmm_Create (length (prof_positions profile)) (msa_abc msa)))"
proof -
  obtain st0 ret msa1 where bm: "profillic_build_model ext bld msa profile_ptr = (st0, ret, msa1)"
    by (cases "profillic_build_model ext bld msa profile_ptr") auto
  from assms(4) bm have st0: "st0 = eslOK"
    by (auto simp: profillic_p7_Builder_def split: if_splits)
  from assms(4) bm st0 obtain hmm0 where ret: "ret = Some hmm0"
    by (cases ret) (auto simp: profillic_p7_Builder_def)
  obtain st1 h1 where s1: "run_stages [\<lambda>h. (eslOK, limit_insert_len bld h), effective_seqnumber ext bld msa1 bg,
                     profillic_parameterize ext bld use_priors, annotate ext bld msa1,
                     calibrate ext bld bg] hmm0 = (st1, h1)"
    by (cases "run_stages [\<lambda>h. (eslOK, limit_insert_len bld h), effective_seqnumber ext bld msa1 bg,
                     profillic_parameterize ext bld use_priors, annotate ext bld msa1,
                     calibrate ext bld bg] hmm0") auto
  obtain st2 post where s2: "make_post_msa ext msa1 h1 want_postmsa = (st2, post)"
    by (cases "make_post_msa ext msa1 h1 want_postmsa") auto
  have s3: "run_stages [\<lambda>h. (eslOK, mask_to_background bg h), set_max_length bld] h1
              = (eslOK, mask_to_background bg h1)"
    by (simp add: set_max_length_other[OF assms(1,2)])
  from assms(4) have e:
    "(if st1 \<noteq> eslOK then Some (st1, None, msa1, None)
      else if st2 \<noteq> eslOK then Some (st2, None, msa1, None)
      else Some (eslOK,
                 Some ((mask_to_background bg h1)\<lparr>hmm_checksum := 0,
                          hmm_flags := insert p7H_CHKSUM (hmm_flags (mask_to_background bg h1))\<rparr>),
                 msa1, post))
       = Some (eslOK, Some hmm, msa', postmsa)"
    by (simp add: profillic_p7_Builder_def bm st0 ret s1 s2 s3 del: run_stages.simps cong: if_cong)
  then have st1: "st1 = eslOK" and st2: "st2 = eslOK" by (auto split: if_splits)
  from e have hmm: "hmm = (mask_to_background bg h1)\<lparr>hmm_checksum := 0,
            hmm_flags := insert p7H_CHKSUM (hmm_flags (mask_to_background bg h1))\<rparr>"
    by (simp add: st1 st2)
  have "hmm_max_length h1 = hmm_max_length hmm0"
    using assms(3) s1[unfolded st1] by (rule first_stages_keep)
  then have keep: "hmm_max_length hmm = hmm_max_length hmm0" by (simp add: hmm mask_keeps)
  have "hmm_max_length hmm0 = hmm_max_length (p7_hmm_Create (length (prof_positions profile)) (msa_abc msa))"
    if "profile_ptr = Some profile" for profile
    using that bm ret
    by (auto simp: profillic_build_model_def profillic_p7_Profillicmodelmaker_def Let_def
          profile_counts_max_length split: if_splits)
  with keep bm ret show ?thesis by simp
qed

theorem builder_leaves_max_length_witness:
  "abc_type (bld_abc example_bld) \<noteq> eslDNA \<and> abc_type (bld_abc example_bld) \<noteq> eslRNA \<and>
   keeps_max_length example_ext \<and>
   (\<exists>hmm msa' postmsa.
      profillic_p7_Builder example_ext example_bld amino_msa (Some amino_profile) example_bg False False
        = Some (eslOK, Some hmm, msa', postmsa) \<and>
      hmm_max_length hmm = - 1)"
proof -
  have a: "abc_type (bld_abc example_bld) \<noteq> eslDNA" and b: "abc_type (bld_abc example_bld) \<noteq> eslRNA"
    by (simp_all add: example_bld_def amino_abc_def)
  have len: "length (prof_positions amino_profile) = 3" by (simp add: amino_profile_def)
  have nm: "msa_name (amino_msa\<lparr>msa_rf := Some (replicate (msa_alen amino_msa) CHR ''x'')\<rparr>) = Some ''example''"
    by (simp add: amino_msa_def example_msa_def)
  have "\<exists>hmm msa' postmsa.
      profillic_p7_Builder example_ext example_bld amino_msa (Some amino_profile) example_bg False False
        = Some (eslOK, Some hmm, msa', postmsa)"
    using a b
    by (simp add: profillic_p7_Builder_def profillic_build_model_def profillic_p7_Profillicmodelmaker_def
          len Let_def effective_seqnumber_def profillic_parameterize_def annotate_def nm calibrate_def
          make_post_msa_def set_max_length_def example_ext_def example_bld_def)
  then obtain hmm msa' postmsa where
    r: "profillic_p7_Builder example_ext example_bld amino_msa (Some amino_profile) example_bg False False
        = Some (eslOK, Some hmm, msa', postmsa)" by blast
  from builder_leaves_max_length[OF a b example_ext_keeps r]
  have "hmm_max_length hmm = hmm_max_length (p7_hmm_Create (length (prof_positions amino_profile)) (msa_abc amino_msa))"
    by blast
  then have "hmm_max_length hmm = - 1" by (simp add: p7_hmm_Create_def)
  with a b example_ext_keeps r show ?thesis by blast
qed

section \<open>Properties of the reader\<close>

lemma insert_behind_mset: "mset (insert_behind x xs) = add_mset x (mset xs)"
  by (induction xs) auto

lemma pending_insert_mset: "mset (pending_insert x xs) = add_mset x (mset xs)"
  by (cases xs) (auto simp: insert_behind_mset)

lemma insert_behind_set: "set (insert_behind x xs) = insert x (set xs)"
  by (induction xs) auto

lemma pending_insert_set: "set (pending_insert x xs) = insert x (set xs)"
  by (cases xs) (auto simp: insert_behind_set)

lemma insert_behind_length: "length (insert_behind x xs) = Suc (length xs)"
  by (induction xs) auto

lemma pending_insert_length: "length (pending_insert x xs) = Suc (length xs)"
  by (cases xs) (auto simp: insert_behind_length)

lemma insert_behind_sorted:
  "sorted_wrt (<) (map fst xs) \<Longrightarrow> fst x \<notin> fst ` set xs \<Longrightarrow> \<forall>y \<in> set xs. lo < fst y \<Longrightarrow> lo < fst x \<Longrightarrow>
   sorted_wrt (<) (lo # map fst (insert_behind x xs))"
proof (induction xs arbitrary: lo)
  case Nil
  then show ?case by simp
next
  case (Cons y ys)
  show ?case
  proof (cases "fst x > fst y")
    case True
    have "sorted_wrt (<) (fst y # map fst (insert_behind x ys))"
      using Cons.prems True by (intro Cons.IH) auto
    with Cons.prems True show ?thesis by (auto simp: insert_behind_set)
  next
    case False
    with Cons.prems have "fst x < fst y" by auto
    with Cons.prems show ?thesis by auto
  qed
qed

lemma pending_insert_sorted:
  assumes "sorted_wrt (<) (map fst xs)" "fst x \<notin> fst ` set xs"
  shows "sorted_wrt (<) (map fst (pending_insert x xs))"
proof (cases xs)
  case Nil
  then show ?thesis by simp
next
  case (Cons y ys)
  show ?thesis
  proof (cases "fst x < fst y")
    case True
    with assms Cons show ?thesis by auto
  next
    case False
    with assms Cons have lt: "fst y < fst x" by auto
    have "sorted_wrt (<) (fst y # map fst (insert_behind x ys))"
      using assms Cons lt by (intro insert_behind_sorted) auto
    with False Cons show ?thesis by simp
  qed
qed

lemma drain_pending_inv:
  assumes "map fst (rd_output st) = [1..<rd_next st]" "1 \<le> rd_next st"
    "sorted_wrt (<) (map fst ps)" "\<forall>x \<in> set ps. rd_next st \<le> fst x"
    "rd_processed st = length (rd_output st) + length ps"
  shows "ordered_inv (drain_pending st ps) \<and>
         emitted (drain_pending st ps) = mset (map fst (rd_output st)) + mset (map fst ps) \<and>
         rd_nali (drain_pending st ps) = rd_nali st"
  using assms
proof (induction ps arbitrary: st)
  case Nil
  then show ?case by (simp add: ordered_inv_def emitted_def)
next
  case (Cons p ps)
  show ?case
  proof (cases "fst p = rd_next st")
    case True
    let ?st = "st\<lparr>rd_output := rd_output st @ [p], rd_next := Suc (rd_next st)\<rparr>"
    have "ordered_inv (drain_pending ?st ps) \<and>
         emitted (drain_pending ?st ps) = mset (map fst (rd_output ?st)) + mset (map fst ps) \<and>
         rd_nali (drain_pending ?st ps) = rd_nali ?st"
    proof (rule Cons.IH)
      show "map fst (rd_output ?st) = [1..<rd_next ?st]" using Cons.prems True by simp
      show "1 \<le> rd_next ?st" by simp
      show "sorted_wrt (<) (map fst ps)" using Cons.prems by simp
      show "\<forall>x\<in>set ps. rd_next ?st \<le> fst x" using Cons.prems True by fastforce
      show "rd_processed ?st = length (rd_output ?st) + length ps" using Cons.prems by simp
    qed
    with True show ?thesis by simp
  next
    case False
    with Cons.prems have "\<forall>x\<in>set (p # ps). rd_next st < fst x" by fastforce
    with False Cons.prems show ?thesis by (simp add: ordered_inv_def emitted_def)
  qed
qed

lemma process_result_inv:
  assumes inv: "ordered_inv st"
    and fresh: "wi_processed item \<Longrightarrow> wi_nali item \<notin># emitted st \<and> 1 \<le> wi_nali item"
  shows "ordered_inv (process_result item st) \<and>
         emitted (process_result item st)
           = emitted st + (if wi_processed item then {#wi_nali item#} else {#}) \<and>
         rd_nali (process_result item st) = rd_nali st"
proof (cases "wi_processed item")
  case False
  with inv show ?thesis by (simp add: process_result_def)
next
  case True
  with fresh have f: "wi_nali item \<notin># emitted st" "1 \<le> wi_nali item" by simp_all
  show ?thesis
  proof (cases "wi_nali item = rd_next st")
    case eq: True
    let ?st = "st\<lparr>rd_processed := Suc (rd_processed st),
                 rd_output := rd_output st @ [(wi_nali item, wi_result item)],
                 rd_next := Suc (rd_next st)\<rparr>"
    have "ordered_inv (drain_pending ?st (rd_top st)) \<and>
         emitted (drain_pending ?st (rd_top st)) = mset (map fst (rd_output ?st)) + mset (map fst (rd_top st)) \<and>
         rd_nali (drain_pending ?st (rd_top st)) = rd_nali ?st"
    proof (rule drain_pending_inv)
      show "map fst (rd_output ?st) = [1..<rd_next ?st]" using inv eq by (simp add: ordered_inv_def)
      show "1 \<le> rd_next ?st" by simp
      show "sorted_wrt (<) (map fst (rd_top st))" using inv by (simp add: ordered_inv_def)
      show "\<forall>x\<in>set (rd_top st). rd_next ?st \<le> fst x" using inv by (auto simp: ordered_inv_def)
      show "rd_processed ?st = length (rd_output ?st) + length (rd_top st)"
        using inv by (simp add: ordered_inv_def)
    qed
    with True eq show ?thesis by (simp add: process_result_def emitted_def Let_def)
  next
    case ne: False
    from inv have out: "map fst (rd_output st) = [1..<rd_next st]" by (simp add: ordered_inv_def)
    from f(1) have "wi_nali item \<notin> set (map fst (rd_output st))"
      and nottop: "wi_nali item \<notin> fst ` set (rd_top st)"
      by (auto simp: emitted_def)
    then have notout: "wi_nali item \<notin> set [1..<rd_next st]" unfolding out by simp
    from notout f(2) ne have gt: "rd_next st < wi_nali item" by auto
    have "sorted_wrt (<) (map fst (pending_insert (wi_nali item, wi_result item) (rd_top st)))"
      using inv nottop by (intro pending_insert_sorted) (auto simp: ordered_inv_def)
    with True ne inv gt show ?thesis
      by (auto simp: process_result_def ordered_inv_def emitted_def Let_def pending_insert_mset
            pending_insert_set pending_insert_length)
  qed
qed

lemma all_emitted:
  assumes inv: "ordered_inv st" and all: "emitted st = mset [1..<Suc n]"
  shows "rd_top st = [] \<and> map fst (rd_output st) = [1..<Suc n] \<and> rd_processed st = n"
proof -
  have out: "map fst (rd_output st) = [1..<rd_next st]" and nx: "1 \<le> rd_next st"
    and tp: "\<forall>x \<in> set (rd_top st). rd_next st < fst x"
    and pr: "rd_processed st = length (rd_output st) + length (rd_top st)"
    using inv by (simp_all add: ordered_inv_def)
  have "set_mset (emitted st) = set (map fst (rd_output st)) \<union> fst ` set (rd_top st)"
    by (simp add: emitted_def)
  then have sets: "set [1..<rd_next st] \<union> fst ` set (rd_top st) = set [1..<Suc n]"
    unfolding out all by simp
  have "rd_next st \<notin> set [1..<rd_next st] \<union> fst ` set (rd_top st)" using tp by auto
  with sets nx have big: "n < rd_next st" by auto
  have emp: "rd_top st = []"
  proof (rule ccontr)
    assume "rd_top st \<noteq> []"
    then obtain x where x: "x \<in> set (rd_top st)" by (cases "rd_top st") auto
    with tp have "rd_next st < fst x" by simp
    moreover from x sets have "fst x \<in> set [1..<Suc n]" by blast
    ultimately show False using big by simp
  qed
  have "size (emitted st) = size (mset [1..<Suc n])" using all by simp
  then have "length (map fst (rd_output st)) = n" using emp by (simp add: emitted_def del: upt_Suc)
  then have len: "length [1..<rd_next st] = n" unfolding out .
  with nx have "rd_next st = Suc n" by simp
  with out have o: "map fst (rd_output st) = [1..<Suc n]" by simp
  have "length (rd_output st) = length (map fst (rd_output st))" by simp
  also have "\<dots> = n" unfolding out by (rule len)
  finally have "rd_processed st = n" using pr emp by simp
  with emp o show ?thesis by simp
qed

lemma returned_Cons:
  "mset (returned (item # queue))
     = (if wi_processed item then {#wi_nali item#} else {#}) + mset (returned queue)"
  by (simp add: returned_def)

lemma reader_loop_ordered:
  assumes "ordered_inv st" "emitted st + mset (returned queue) = mset [1..<Suc n]"
    "rd_nali st \<le> n" "n \<le> rd_nali st + length queue"
  shows "\<exists>st'. reader_loop n queue st = Inr st' \<and> rd_top st' = [] \<and> map fst (rd_output st') = [1..<Suc n]"
  using assms
proof (induction queue arbitrary: st)
  case Nil
  then have "emitted st = mset [1..<Suc n]" by (simp add: returned_def)
  from all_emitted[OF Nil.prems(1) this] Nil.prems show ?case by simp
next
  case (Cons item queue)
  have fresh: "wi_processed item \<Longrightarrow> wi_nali item \<notin># emitted st \<and> 1 \<le> wi_nali item"
  proof -
    assume p: "wi_processed item"
    then have eq: "mset [1..<Suc n] = add_mset (wi_nali item) (emitted st + mset (returned queue))"
      using Cons.prems(2) by (simp add: returned_def)
    have "count (mset [1..<Suc n]) (wi_nali item)
            = Suc (count (emitted st) (wi_nali item) + count (mset (returned queue)) (wi_nali item))"
      unfolding eq by simp
    moreover have "count (mset [1..<Suc n]) (wi_nali item) \<le> 1"
      using distinct_upt[of 1 "Suc n"] unfolding distinct_count_atmost_1 by (simp del: upt_Suc)
    ultimately have "count (emitted st) (wi_nali item) = 0" by simp
    then have a: "wi_nali item \<notin># emitted st" by (simp add: count_eq_zero_iff)
    have "wi_nali item \<in># mset [1..<Suc n]" unfolding eq by simp
    then have "1 \<le> wi_nali item" by (simp del: upt_Suc)
    with a show ?thesis by simp
  qed
  show ?case
  proof (cases "rd_nali st < n \<or> rd_processed st < rd_nali st")
    case True
    define st0 where "st0 = (if rd_nali st < n then st\<lparr>rd_nali := Suc (rd_nali st)\<rparr> else st)"
    have inv0: "ordered_inv st0" using Cons.prems(1) by (simp add: st0_def ordered_inv_def)
    have em0: "emitted st0 = emitted st" by (simp add: st0_def emitted_def)
    have step: "reader_loop n (item # queue) st = reader_loop n queue (process_result item st0)"
      using True by (auto simp: st0_def)
    have fresh0: "wi_processed item \<Longrightarrow> wi_nali item \<notin># emitted st0 \<and> 1 \<le> wi_nali item"
      using fresh em0 by simp
    note pr = process_result_inv[OF inv0 fresh0]
    have "\<exists>st'. reader_loop n queue (process_result item st0) = Inr st' \<and> rd_top st' = [] \<and>
            map fst (rd_output st') = [1..<Suc n]"
    proof (rule Cons.IH)
      show "ordered_inv (process_result item st0)" using pr by simp
      from pr have e: "emitted (process_result item st0)
                         = emitted st + (if wi_processed item then {#wi_nali item#} else {#})"
        unfolding em0 by blast
      have "emitted (process_result item st0) + mset (returned queue)
              = emitted st + mset (returned (item # queue))"
        unfolding e returned_Cons by (simp only: add.assoc)
      with Cons.prems(2) show "emitted (process_result item st0) + mset (returned queue) = mset [1..<Suc n]"
        by (simp only:)
      show "rd_nali (process_result item st0) \<le> n" using pr Cons.prems(3) by (simp add: st0_def)
      show "n \<le> rd_nali (process_result item st0) + length queue"
        using pr Cons.prems(3,4) by (simp add: st0_def)
    qed
    with step show ?thesis by simp
  next
    case False
    then have fin: "rd_nali st = n" "n \<le> rd_processed st" using Cons.prems(3) by simp_all
    have "size (emitted st + mset (returned (item # queue))) = size (mset [1..<Suc n])"
      using Cons.prems(2) by simp
    then have "size (emitted st) + size (mset (returned (item # queue))) = n"
      by (simp del: upt_Suc)
    moreover have "size (emitted st) = length (rd_output st) + length (rd_top st)"
      by (simp add: emitted_def)
    moreover have "rd_processed st = length (rd_output st) + length (rd_top st)"
      using Cons.prems(1) by (simp add: ordered_inv_def)
    ultimately have "size (mset (returned (item # queue))) = 0" using fin by linarith
    then have "mset (returned (item # queue)) = {#}" by simp
    with Cons.prems(2) have "emitted st = mset [1..<Suc n]" by simp
    from all_emitted[OF Cons.prems(1) this] False show ?thesis by simp
  qed
qed

lemma example_queue_run:
  "thread_loop 3 example_queue = Inr [(1, ''first''), (2, ''second''), (3, ''third'')]"
  by (simp add: thread_loop_def example_queue_def process_result_def Let_def)

lemma thread_loop_stray_result:
  "thread_loop 1 [\<lparr>wi_nali = 2, wi_processed = True, wi_result = ''stray''\<rparr>] = Inl Top_not_empty"
  by (simp add: thread_loop_def process_result_def Let_def)

text \<open>Claim C2. Let the source hold \<open>N\<close> alignments. If the queue hands back every
  one of them processed exactly once, in any order and with any number of free items in
  between, then the reader's loop ends with the pending list empty, the reader returns
  what it has written, and the indices of the results written are \<open>1, 2, ..., N\<close> in
  this order. And whenever the loop ends, the reader fails with the fatal
  \<^verbatim>\<open>Top is not empty\<close> exactly when the pending list is not empty.\<close>

theorem thread_loop_in_order:
  fixes queue :: "'r WORK_ITEM list"
  shows "(mset (returned queue) = mset [1..<Suc n] \<longrightarrow>
            (\<exists>st. reader_loop n queue
                     \<lparr>rd_nali = 0, rd_processed = 0, rd_next = 1, rd_top = [], rd_output = []\<rparr> = Inr st \<and>
                  rd_top st = [] \<and> thread_loop n queue = Inr (rd_output st) \<and>
                  map fst (rd_output st) = [1..<Suc n])) \<and>
         (\<forall>st. reader_loop n queue
                    \<lparr>rd_nali = 0, rd_processed = 0, rd_next = 1, rd_top = [], rd_output = []\<rparr> = Inr st \<longrightarrow>
               (thread_loop n queue = Inl Top_not_empty \<longleftrightarrow> rd_top st \<noteq> []))"
proof (intro conjI impI allI)
  let ?st = "\<lparr>rd_nali = 0, rd_processed = 0, rd_next = 1, rd_top = [], rd_output = []\<rparr> :: 'r reader_state"
  assume ret: "mset (returned queue) = mset [1..<Suc n]"
  then have "size (mset (returned queue)) = size (mset [1..<Suc n])" by simp
  then have "length (returned queue) = n" by (simp del: upt_Suc)
  then have len: "n \<le> length queue"
    unfolding returned_def using length_filter_le[of wi_processed queue] by simp
  have "\<exists>st'. reader_loop n queue ?st = Inr st' \<and> rd_top st' = [] \<and> map fst (rd_output st') = [1..<Suc n]"
    using ret len by (intro reader_loop_ordered) (simp_all add: ordered_inv_def emitted_def)
  then show "\<exists>st. reader_loop n queue ?st = Inr st \<and> rd_top st = [] \<and>
                  thread_loop n queue = Inr (rd_output st) \<and> map fst (rd_output st) = [1..<Suc n]"
    by (auto simp: thread_loop_def)
next
  fix st :: "'r reader_state"
  assume "reader_loop n queue
            \<lparr>rd_nali = 0, rd_processed = 0, rd_next = 1, rd_top = [], rd_output = []\<rparr> = Inr st"
  then show "thread_loop n queue = Inl Top_not_empty \<longleftrightarrow> rd_top st \<noteq> []"
    by (simp add: thread_loop_def)
qed

theorem thread_loop_in_order_witness:
  "mset (returned example_queue) = mset [1..<Suc 3] \<and>
   thread_loop 3 example_queue = Inr [(1, ''first''), (2, ''second''), (3, ''third'')] \<and>
   reader_loop 1 [\<lparr>wi_nali = 2, wi_processed = True, wi_result = ''stray''\<rparr>]
       \<lparr>rd_nali = 0, rd_processed = 0, rd_next = 1, rd_top = [], rd_output = []\<rparr>
     = Inr \<lparr>rd_nali = 1, rd_processed = 1, rd_next = 1, rd_top = [(2, ''stray'')], rd_output = []\<rparr> \<and>
   thread_loop 1 [\<lparr>wi_nali = 2, wi_processed = True, wi_result = ''stray''\<rparr>] = Inl Top_not_empty"
proof -
  have l: "[1..<Suc 3] = [1, 2, 3]" by (simp add: upt_rec)
  have r: "returned example_queue = [2, 3, 1]" by (simp add: returned_def example_queue_def)
  have h: "mset (returned example_queue) = mset [1..<Suc 3]"
    unfolding l r by (simp add: add_mset_commute)
  have s: "reader_loop 1 [\<lparr>wi_nali = 2, wi_processed = True, wi_result = ''stray''\<rparr>]
               \<lparr>rd_nali = 0, rd_processed = 0, rd_next = 1, rd_top = [], rd_output = []\<rparr>
             = Inr \<lparr>rd_nali = 1, rd_processed = 1, rd_next = 1, rd_top = [(2, ''stray'')], rd_output = []\<rparr>"
    by (simp add: process_result_def Let_def)
  from thread_loop_in_order[of example_queue 3] h
  have "\<exists>out. thread_loop 3 example_queue = Inr out \<and> map fst out = [1..<Suc 3]"
    by blast
  moreover from thread_loop_in_order[of "[\<lparr>wi_nali = 2, wi_processed = True, wi_result = ''stray''\<rparr>]" 1] s
  have "thread_loop 1 [\<lparr>wi_nali = 2, wi_processed = True, wi_result = ''stray''\<rparr>] = Inl Top_not_empty"
    by simp
  ultimately show ?thesis using h s example_queue_run by simp
qed

end
